theory Spec2Isabelle
  imports Main "HOL-Library.Word"
begin

unbundle bit_operations_syntax

section \<open>The consistent-hash ring (consistent\_hash.h, consistent\_hash.cpp)\<close>

text \<open>
  \<^verbatim>\<open>struct Node { std::string id; std::string host; int grpc_port; int http_port; }\<close>.
  The field \<^verbatim>\<open>id\<close> is written \<open>id_n\<close>, since \<open>id\<close> is the identity function of HOL.
\<close>

record Node =
  id_n :: string
  host :: string
  grpc_port :: int
  http_port :: int

text \<open>
  The members of \<^verbatim>\<open>class ConsistentHash\<close>. The source names end in an underscore
  (\<^verbatim>\<open>virtual_nodes_\<close>, \<^verbatim>\<open>ring_\<close>, \<^verbatim>\<open>nodes_\<close>), which is not a legal name here, so
  the underscore is dropped.
  \<^item> \<^verbatim>\<open>std::map<uint32_t, std::string> ring_\<close> is an ordered map: it is the list of its
    entries in ascending key order, the order in which \<^verbatim>\<open>begin()\<close>, \<^verbatim>\<open>lower_bound\<close> and
    iteration see them.
  \<^item> \<^verbatim>\<open>std::unordered_map<std::string, Node> nodes_\<close> is a partial map; no claim depends
    on its iteration order.
  \<^item> \<^verbatim>\<open>int virtual_nodes_\<close> is an \<open>int\<close>: the loops only compare the counter with it and
    count upwards from 0, so no arithmetic on it can overflow.
\<close>

record ConsistentHash =
  virtual_nodes :: int
  ring :: "(32 word \<times> string) list"
  nodes :: "string \<rightharpoonup> Node"

text \<open>
  \<^verbatim>\<open>getNode\<close> throws \<^verbatim>\<open>std::runtime_error("No nodes available")\<close> on an empty ring, and
  \<^verbatim>\<open>nodes_.at(...)\<close> throws \<^verbatim>\<open>std::out_of_range\<close> for an identifier that is not registered.
  Both derive from \<^verbatim>\<open>std::exception\<close>.
\<close>

datatype error = NoNodesAvailable | OutOfRange

subsection \<open>Operations of the ordered map\<close>

text \<open>\<^verbatim>\<open>ring_[k] = v\<close>: insert at the key's place in the order, or overwrite.\<close>

fun ring_assign :: "'k::linorder \<Rightarrow> 'v \<Rightarrow> ('k \<times> 'v) list \<Rightarrow> ('k \<times> 'v) list" where
  "ring_assign k v [] = [(k, v)]"
| "ring_assign k v ((k', v') # r) =
     (if k < k' then (k, v) # (k', v') # r
      else if k = k' then (k, v) # r
      else (k', v') # ring_assign k v r)"

text \<open>\<^verbatim>\<open>ring_.erase(k)\<close>: remove the entry of key \<open>k\<close>, if there is one.\<close>

fun ring_erase :: "'k \<Rightarrow> ('k \<times> 'v) list \<Rightarrow> ('k \<times> 'v) list" where
  "ring_erase k [] = []"
| "ring_erase k ((k', v') # r) = (if k = k' then r else (k', v') # ring_erase k r)"

text \<open>
  \<^verbatim>\<open>ring_.lower_bound(k)\<close>: the first entry, in key order, whose key is not less than
  \<open>k\<close>; \<open>None\<close> stands for \<^verbatim>\<open>ring_.end()\<close>.
\<close>

fun ring_lower_bound :: "'k::linorder \<Rightarrow> ('k \<times> 'v) list \<Rightarrow> ('k \<times> 'v) option" where
  "ring_lower_bound k [] = None"
| "ring_lower_bound k ((k', v') # r) =
     (if k \<le> k' then Some (k', v') else ring_lower_bound k r)"

subsection \<open>Hashing and virtual-node labels\<close>

text \<open>
  \<^verbatim>\<open>std::to_string(int)\<close>: the decimal digits, with a leading minus sign for a negative
  number.
\<close>

definition digit_char :: "nat \<Rightarrow> char" where
  "digit_char d = ''0123456789'' ! d"

fun digits :: "nat \<Rightarrow> string" where
  "digits n =
     (if n < 10 then [digit_char n]
      else digits (n div 10) @ [digit_char (n mod 10)])"

declare digits.simps [simp del]

definition to_string :: "int \<Rightarrow> string" where
  "to_string i = (if i < 0 then CHR ''-'' # digits (nat (- i)) else digits (nat i))"

text \<open>\<^verbatim>\<open>return node_id + "#" + std::to_string(index);\<close>\<close>

definition getVirtualNodeKey :: "string \<Rightarrow> int \<Rightarrow> string" where
  "getVirtualNodeKey node_id index = node_id @ ''#'' @ to_string index"

text \<open>
  \<^verbatim>\<open>ConsistentHash::hash\<close> calls OpenSSL's \<^verbatim>\<open>MD5\<close>, which is not code of this repository:
  the digest function is the parameter \<open>md5\<close>, from a string to the bytes of its digest.
  The code then assembles the first four bytes, most significant first:
  \<^verbatim>\<open>for (i = 0; i < 4; ++i) result = (result << 8) | digest[i];\<close>
\<close>

type_synonym digest_fn = "string \<Rightarrow> 8 word list"

definition hash :: "digest_fn \<Rightarrow> string \<Rightarrow> 32 word" where
  "hash md5 str =
     foldl (\<lambda>result b. push_bit 8 result OR ucast b) 0 (take 4 (md5 str))"

subsection \<open>addNode, removeNode, getNode, hasNode\<close>

text \<open>\<^verbatim>\<open>ConsistentHash::ConsistentHash(int virtual_nodes)\<close>: empty ring, empty registry.\<close>

definition ConsistentHash_new :: "int \<Rightarrow> ConsistentHash" where
  "ConsistentHash_new vn = \<lparr>virtual_nodes = vn, ring = [], nodes = Map.empty\<rparr>"

text \<open>
  The loop of \<^verbatim>\<open>addNode\<close>, from counter \<open>i\<close>:
  \<^verbatim>\<open>for (int i = 0; i < virtual_nodes_; ++i) ring_[hash(getVirtualNodeKey(node.id, i))] = node.id;\<close>
\<close>

function addNode_loop ::
  "digest_fn \<Rightarrow> int \<Rightarrow> string \<Rightarrow> int \<Rightarrow> (32 word \<times> string) list \<Rightarrow> (32 word \<times> string) list"
where
  "addNode_loop md5 vn node_id i r =
     (if i < vn then
        (let virtual_key = getVirtualNodeKey node_id i;
             hash_value = hash md5 virtual_key
         in addNode_loop md5 vn node_id (i + 1) (ring_assign hash_value node_id r))
      else r)"
  by pat_completeness auto
termination
  by (relation "measure (\<lambda>(md5, vn, node_id, i, r). nat (vn - i))") auto

declare addNode_loop.simps [simp del]

definition addNode :: "digest_fn \<Rightarrow> ConsistentHash \<Rightarrow> Node \<Rightarrow> ConsistentHash" where
  "addNode md5 s node =
     s\<lparr>nodes := (nodes s)(id_n node \<mapsto> node),
       ring := addNode_loop md5 (virtual_nodes s) (id_n node) 0 (ring s)\<rparr>"

text \<open>
  The loop of \<^verbatim>\<open>removeNode\<close>, from counter \<open>i\<close>:
  \<^verbatim>\<open>for (int i = 0; i < virtual_nodes_; ++i) ring_.erase(hash(getVirtualNodeKey(node_id, i)));\<close>
\<close>

function removeNode_loop ::
  "digest_fn \<Rightarrow> int \<Rightarrow> string \<Rightarrow> int \<Rightarrow> (32 word \<times> string) list \<Rightarrow> (32 word \<times> string) list"
where
  "removeNode_loop md5 vn node_id i r =
     (if i < vn then
        (let virtual_key = getVirtualNodeKey node_id i;
             hash_value = hash md5 virtual_key
         in removeNode_loop md5 vn node_id (i + 1) (ring_erase hash_value r))
      else r)"
  by pat_completeness auto
termination
  by (relation "measure (\<lambda>(md5, vn, node_id, i, r). nat (vn - i))") auto

declare removeNode_loop.simps [simp del]

text \<open>An identifier that is not registered returns at once; otherwise the ring loses the
  node's virtual positions and the registry its entry.\<close>

definition removeNode :: "digest_fn \<Rightarrow> ConsistentHash \<Rightarrow> string \<Rightarrow> ConsistentHash" where
  "removeNode md5 s node_id =
     (case nodes s node_id of
        None \<Rightarrow> s
      | Some _ \<Rightarrow>
          s\<lparr>ring := removeNode_loop md5 (virtual_nodes s) node_id 0 (ring s),
            nodes := (nodes s)(node_id := None)\<rparr>)"

text \<open>
  \<^verbatim>\<open>getNode\<close>: the exception on an empty ring, \<^verbatim>\<open>lower_bound\<close> with the wrap to
  \<^verbatim>\<open>begin()\<close>, and \<^verbatim>\<open>nodes_.at(it->second)\<close>, which throws for a missing identifier.
\<close>

definition getNode :: "digest_fn \<Rightarrow> ConsistentHash \<Rightarrow> string \<Rightarrow> error + Node" where
  "getNode md5 s key =
     (if ring s = [] then Inl NoNodesAvailable
      else
        (let hash_value = hash md5 key;
             it = (case ring_lower_bound hash_value (ring s) of
                     None \<Rightarrow> hd (ring s)
                   | Some e \<Rightarrow> e)
         in case nodes s (snd it) of
              None \<Rightarrow> Inl OutOfRange
            | Some n \<Rightarrow> Inr n))"

definition hasNode :: "ConsistentHash \<Rightarrow> string \<Rightarrow> bool" where
  "hasNode s node_id = (nodes s node_id \<noteq> None)"

subsection \<open>Sequences of membership changes\<close>

text \<open>
  The members are private: a ring state is what the constructor built and the calls of
  \<^verbatim>\<open>addNode\<close> and \<^verbatim>\<open>removeNode\<close> since then made of it.
\<close>

datatype membership_op = AddNode Node | RemoveNode string

fun apply_op :: "digest_fn \<Rightarrow> ConsistentHash \<Rightarrow> membership_op \<Rightarrow> ConsistentHash" where
  "apply_op md5 s (AddNode node) = addNode md5 s node"
| "apply_op md5 s (RemoveNode node_id) = removeNode md5 s node_id"

definition run_ops :: "digest_fn \<Rightarrow> int \<Rightarrow> membership_op list \<Rightarrow> ConsistentHash" where
  "run_ops md5 vn ops = foldl (apply_op md5) (ConsistentHash_new vn) ops"

text \<open>
  The invariant that the constructor establishes and \<^verbatim>\<open>addNode\<close> and \<^verbatim>\<open>removeNode\<close> keep:
  the entries of the ring are in strictly ascending key order (it is a \<^verbatim>\<open>std::map\<close>), every
  entry sits at the hash of one of the virtual-node labels of the identifier it stores, that
  identifier is registered, and the registry files every node under its own identifier.
\<close>

definition ring_inv :: "digest_fn \<Rightarrow> ConsistentHash \<Rightarrow> bool" where
  "ring_inv md5 s \<longleftrightarrow>
     sorted_wrt (<) (map fst (ring s)) \<and>
     (\<forall>k v. map_of (ring s) k = Some v \<longrightarrow>
        v \<in> dom (nodes s) \<and>
        k \<in> (\<lambda>j. hash md5 (getVirtualNodeKey v j)) ` {0..<virtual_nodes s}) \<and>
     (\<forall>nid n. nodes s nid = Some n \<longrightarrow> id_n n = nid)"

section \<open>The cache node (cache\_server.h, cache\_server.cpp)\<close>

text \<open>
  \<^verbatim>\<open>class GrpcClient\<close> is declared in grpc\_client.h; its implementation is not among the
  sources. Its three calls used by the cache node are parameters: each takes the client's
  state (the connection pool and, behind it, the peers) and returns the call's result with
  the client's new state. \<^verbatim>\<open>get\<close> also takes the caller's \<^verbatim>\<open>value\<close>, which it may overwrite.
\<close>

record 'c GrpcClient =
  client_get :: "'c \<Rightarrow> Node \<Rightarrow> string \<Rightarrow> string \<Rightarrow> (bool \<times> string) \<times> 'c"
  client_set :: "'c \<Rightarrow> Node \<Rightarrow> string \<Rightarrow> string \<Rightarrow> bool \<times> 'c"
  client_del :: "'c \<Rightarrow> Node \<Rightarrow> string \<Rightarrow> bool \<times> 'c"

text \<open>
  The members of \<^verbatim>\<open>class CacheServer\<close> that the cache operations read or write. The
  trailing underscores are dropped; \<^verbatim>\<open>host_\<close>, \<^verbatim>\<open>grpc_port_\<close> and \<^verbatim>\<open>http_port_\<close> get the
  suffix \<open>_s\<close>, since \<^verbatim>\<open>Node\<close> has fields of these names. \<^verbatim>\<open>cache_mutex_\<close> is held for the
  whole body of each of \<^verbatim>\<open>getLocal\<close>, \<^verbatim>\<open>setLocal\<close> and \<^verbatim>\<open>delLocal\<close>, which are therefore
  single steps on the store. The HTTP handler and the gRPC server object take no part in
  the operations below.
\<close>

record 'c CacheServer =
  node_id :: string
  host_s :: string
  grpc_port_s :: int
  http_port_s :: int
  local_cache :: "string \<rightharpoonup> string"
  hash_ring :: ConsistentHash
  grpc_client :: 'c

text \<open>
  The constructor: a ring of 100 virtual nodes per physical node, with this node added.
  \<open>client\<close> is the state of the freshly made \<^verbatim>\<open>GrpcClient\<close>.
\<close>

definition CacheServer_new ::
  "digest_fn \<Rightarrow> 'c \<Rightarrow> string \<Rightarrow> string \<Rightarrow> int \<Rightarrow> int \<Rightarrow> 'c CacheServer" where
  "CacheServer_new md5 client nid h grpc_p http_p =
     \<lparr>node_id = nid, host_s = h, grpc_port_s = grpc_p, http_port_s = http_p,
      local_cache = Map.empty,
      hash_ring = addNode md5 (ConsistentHash_new 100)
                    \<lparr>id_n = nid, host = h, grpc_port = grpc_p, http_port = http_p\<rparr>,
      grpc_client = client\<rparr>"

text \<open>\<^verbatim>\<open>CacheServer::addNode\<close> and \<^verbatim>\<open>CacheServer::removeNode\<close> delegate to the ring (and print
  a line).\<close>

definition CacheServer_addNode :: "digest_fn \<Rightarrow> 'c CacheServer \<Rightarrow> Node \<Rightarrow> 'c CacheServer" where
  "CacheServer_addNode md5 s node = s\<lparr>hash_ring := addNode md5 (hash_ring s) node\<rparr>"

definition CacheServer_removeNode ::
  "digest_fn \<Rightarrow> 'c CacheServer \<Rightarrow> string \<Rightarrow> 'c CacheServer" where
  "CacheServer_removeNode md5 s nid = s\<lparr>hash_ring := removeNode md5 (hash_ring s) nid\<rparr>"

text \<open>
  \<^verbatim>\<open>try { return getNode(key).id == node_id_; } catch (const std::exception&) { return true; }\<close>
\<close>

definition isLocalKey :: "digest_fn \<Rightarrow> 'c CacheServer \<Rightarrow> string \<Rightarrow> bool" where
  "isLocalKey md5 s key =
     (case getNode md5 (hash_ring s) key of
        Inr target_node \<Rightarrow> id_n target_node = node_id s
      | Inl e \<Rightarrow> True)"

text \<open>
  \<^verbatim>\<open>getLocal(key, value)\<close> returns whether the key is in the store; the second component
  is the caller's \<^verbatim>\<open>value\<close> after the call, assigned only when the key is found.
\<close>

definition getLocal :: "'c CacheServer \<Rightarrow> string \<Rightarrow> string \<Rightarrow> bool \<times> string" where
  "getLocal s key val =
     (case local_cache s key of
        Some v \<Rightarrow> (True, v)
      | None \<Rightarrow> (False, val))"

definition setLocal :: "'c CacheServer \<Rightarrow> string \<Rightarrow> string \<Rightarrow> bool \<times> 'c CacheServer" where
  "setLocal s key val = (True, s\<lparr>local_cache := (local_cache s)(key \<mapsto> val)\<rparr>)"

definition delLocal :: "'c CacheServer \<Rightarrow> string \<Rightarrow> bool \<times> 'c CacheServer" where
  "delLocal s key =
     (case local_cache s key of
        Some v \<Rightarrow> (True, s\<lparr>local_cache := (local_cache s)(key := None)\<rparr>)
      | None \<Rightarrow> (False, s))"

text \<open>
  \<^verbatim>\<open>get\<close>, \<^verbatim>\<open>set\<close> and \<^verbatim>\<open>del\<close>. In the remote branch \<^verbatim>\<open>getNode\<close> is called again, outside any
  \<^verbatim>\<open>try\<close>: an exception there would leave the operation, which is the result \<open>Inl\<close>.
  \<^verbatim>\<open>set\<close> is written \<open>set_value\<close>, since \<open>set\<close> is the set of a list's elements in HOL.
\<close>

definition get ::
  "digest_fn \<Rightarrow> 'c GrpcClient \<Rightarrow> 'c CacheServer \<Rightarrow> string \<Rightarrow> string
     \<Rightarrow> error + ((bool \<times> string) \<times> 'c CacheServer)" where
  "get md5 rpc s key val =
     (if isLocalKey md5 s key then Inr (getLocal s key val, s)
      else
        (case getNode md5 (hash_ring s) key of
           Inl e \<Rightarrow> Inl e
         | Inr target_node \<Rightarrow>
             (let (res, c) = client_get rpc (grpc_client s) target_node key val
              in Inr (res, s\<lparr>grpc_client := c\<rparr>))))"

definition set_value ::
  "digest_fn \<Rightarrow> 'c GrpcClient \<Rightarrow> 'c CacheServer \<Rightarrow> string \<Rightarrow> string
     \<Rightarrow> error + (bool \<times> 'c CacheServer)" where
  "set_value md5 rpc s key val =
     (if isLocalKey md5 s key then Inr (setLocal s key val)
      else
        (case getNode md5 (hash_ring s) key of
           Inl e \<Rightarrow> Inl e
         | Inr target_node \<Rightarrow>
             (let (res, c) = client_set rpc (grpc_client s) target_node key val
              in Inr (res, s\<lparr>grpc_client := c\<rparr>))))"

definition del ::
  "digest_fn \<Rightarrow> 'c GrpcClient \<Rightarrow> 'c CacheServer \<Rightarrow> string
     \<Rightarrow> error + (bool \<times> 'c CacheServer)" where
  "del md5 rpc s key =
     (if isLocalKey md5 s key then Inr (delLocal s key)
      else
        (case getNode md5 (hash_ring s) key of
           Inl e \<Rightarrow> Inl e
         | Inr target_node \<Rightarrow>
             (let (res, c) = client_del rpc (grpc_client s) target_node key
              in Inr (res, s\<lparr>grpc_client := c\<rparr>))))"

text \<open>
  The handlers of the gRPC service, called by peers. Each returns \<^verbatim>\<open>grpc::Status::OK\<close>; the
  model returns the fields of the response and the server's state after the call.
  \<^verbatim>\<open>Get\<close> starts from an empty \<^verbatim>\<open>value\<close> and sets the response's \<^verbatim>\<open>value\<close> only when the key
  was found (an unset string field of the response is empty).
\<close>

definition Get :: "'c CacheServer \<Rightarrow> string \<Rightarrow> (bool \<times> string) \<times> 'c CacheServer" where
  "Get s key =
     (let (found, val) = getLocal s key []
      in ((found, if found then val else []), s))"

definition Set :: "'c CacheServer \<Rightarrow> string \<Rightarrow> string \<Rightarrow> bool \<times> 'c CacheServer" where
  "Set s key val = setLocal s key val"

definition Delete :: "'c CacheServer \<Rightarrow> string \<Rightarrow> bool \<times> 'c CacheServer" where
  "Delete s key = delLocal s key"

text \<open>\<^verbatim>\<open>response->set_healthy(true); response->set_node_id(node_id_);\<close>\<close>

definition Health :: "'c CacheServer \<Rightarrow> (bool \<times> string) \<times> 'c CacheServer" where
  "Health s = ((True, node_id s), s)"

section \<open>Example data\<close>

text \<open>
  The MD5 digests of the strings that the examples below hash: the virtual-node labels
  \<open>0\<close> to \<open>99\<close> of the nodes \<^verbatim>\<open>server1\<close>, \<^verbatim>\<open>server2\<close> and \<^verbatim>\<open>server147308\<close>, the labels \<open>0\<close> to
  \<open>2\<close> of \<^verbatim>\<open>server29363\<close> and \<^verbatim>\<open>server64058\<close>, and two cache keys. Each table is indexed by
  the label's part after the \<^verbatim>\<open>#\<close>. A string outside the tables gets the empty list; no
  example hashes one.
\<close>

definition digests_server1 :: "string \<Rightarrow> 8 word list" where
  "digests_server1 t =
    (if t = ''0'' then
       [0x33, 0x33, 0x0d, 0x14, 0xa9, 0x9d, 0x6a, 0x81, 0x9e, 0x65, 0xbb, 0xbd, 0x58, 0x06, 0x39, 0xa2]
     else if t = ''1'' then
       [0x92, 0xc3, 0xe7, 0xef, 0xb6, 0x68, 0xef, 0x53, 0xb0, 0x0b, 0xb1, 0x15, 0xbd, 0xef, 0xd1, 0x9c]
     else if t = ''2'' then
       [0xb3, 0x90, 0x32, 0xc7, 0xf6, 0x09, 0x86, 0x21, 0x94, 0x48, 0x09, 0x14, 0x22, 0xac, 0xb0, 0xd3]
     else if t = ''3'' then
       [0x6f, 0x41, 0xed, 0x80, 0x66, 0x2e, 0xaf, 0x27, 0xc3, 0x6c, 0x26, 0x67, 0x97, 0x00, 0x57, 0x88]
     else if t = ''4'' then
       [0xcb, 0x6e, 0x27, 0x87, 0xbd, 0x3c, 0xce, 0x7f, 0x46, 0x74, 0x70, 0x82, 0x0f, 0x0d, 0xb6, 0xbf]
     else if t = ''5'' then
       [0x04, 0xa0, 0x26, 0xf1, 0xb7, 0x4c, 0x7a, 0xd2, 0xae, 0xf9, 0x87, 0xd3, 0x16, 0x39, 0xec, 0x04]
     else if t = ''6'' then
       [0x97, 0xf1, 0x89, 0x33, 0x56, 0x94, 0x75, 0xe3, 0x66, 0xad, 0xe5, 0x67, 0xb2, 0x41, 0x47, 0x92]
     else if t = ''7'' then
       [0x7e, 0x69, 0x77, 0xcf, 0x61, 0x60, 0x33, 0xc1, 0x72, 0xad, 0xb1, 0x04, 0x00, 0x6f, 0x39, 0x74]
     else if t = ''8'' then
       [0x38, 0xe2, 0x82, 0x04, 0xca, 0xfe, 0x38, 0xd7, 0xca, 0xa4, 0x82, 0x78, 0xe8, 0xa8, 0xd3, 0x13]
     else if t = ''9'' then
       [0x2a, 0x84, 0x42, 0x40, 0xf4, 0xa9, 0x0c, 0x2a, 0x5c, 0xc0, 0xbf, 0x9e, 0x22, 0xee, 0xfd, 0x55]
     else if t = ''10'' then
       [0xa1, 0x37, 0x12, 0xa4, 0x86, 0x06, 0x29, 0x8a, 0x0e, 0xd3, 0xfa, 0x02, 0xde, 0xb3, 0x4c, 0x1f]
     else if t = ''11'' then
       [0x15, 0x30, 0x06, 0xa3, 0xa7, 0xc6, 0x3e, 0x0e, 0xa4, 0xf3, 0x9f, 0x51, 0x95, 0x95, 0x6c, 0x05]
     else if t = ''12'' then
       [0x22, 0x6e, 0x97, 0xa8, 0x71, 0x5a, 0x76, 0x8e, 0x23, 0x60, 0x52, 0xbc, 0xaa, 0x45, 0x88, 0x1a]
     else if t = ''13'' then
       [0x3f, 0xc5, 0xaf, 0x8f, 0xbf, 0xb3, 0xb5, 0x2a, 0x06, 0xbe, 0x9e, 0xab, 0x77, 0x01, 0xe7, 0x02]
     else if t = ''14'' then
       [0x89, 0x38, 0x67, 0x19, 0x38, 0x71, 0xa9, 0xa0, 0xe1, 0x31, 0x70, 0xb4, 0x80, 0x89, 0x6a, 0x98]
     else if t = ''15'' then
       [0x20, 0x3e, 0x33, 0xe2, 0x4c, 0xd6, 0x60, 0xdc, 0x67, 0xc0, 0x5c, 0x70, 0x88, 0xe6, 0xa4, 0x50]
     else if t = ''16'' then
       [0xeb, 0x70, 0x09, 0xb6, 0x0f, 0x02, 0x75, 0x48, 0x50, 0x0d, 0x83, 0x9d, 0x57, 0x49, 0x96, 0x0c]
     else if t = ''17'' then
       [0xf3, 0x1d, 0x83, 0x9d, 0xbf, 0xb4, 0xa7, 0x5b, 0x71, 0x89, 0x82, 0x43, 0xa1, 0x38, 0xfa, 0x9b]
     else if t = ''18'' then
       [0x70, 0x42, 0xe1, 0xeb, 0xec, 0x4b, 0x6f, 0x5c, 0xaf, 0x8a, 0xc7, 0xa2, 0xda, 0x68, 0xa5, 0x32]
     else if t = ''19'' then
       [0xfc, 0xa9, 0x8b, 0x56, 0x84, 0x3d, 0x2c, 0x58, 0xed, 0x63, 0xcc, 0xfc, 0xb5, 0x77, 0xa6, 0xe4]
     else if t = ''20'' then
       [0x7e, 0xa1, 0xdd, 0x8a, 0x5b, 0x65, 0x89, 0x90, 0x8e, 0xe4, 0x5f, 0xae, 0xd6, 0x3a, 0x19, 0x70]
     else if t = ''21'' then
       [0x8d, 0x43, 0xa2, 0xb5, 0x60, 0x7d, 0xcf, 0xdc, 0x03, 0x2d, 0x4a, 0x2a, 0x10, 0x5f, 0x9f, 0x01]
     else if t = ''22'' then
       [0xb2, 0xd0, 0x4f, 0x2c, 0x7b, 0xc3, 0x74, 0xa2, 0xdb, 0x13, 0xd4, 0x24, 0x72, 0xe5, 0x25, 0x4e]
     else if t = ''23'' then
       [0x89, 0x13, 0x30, 0xbd, 0x72, 0x14, 0xed, 0x68, 0x9c, 0xe1, 0x3a, 0xab, 0x20, 0x9a, 0x84, 0xc4]
     else if t = ''24'' then
       [0xab, 0xc8, 0x95, 0x65, 0x0a, 0xc3, 0x93, 0x28, 0x85, 0x3a, 0x06, 0x57, 0x10, 0x8f, 0xb1, 0xe8]
     else if t = ''25'' then
       [0x9e, 0x3f, 0x6c, 0xf9, 0xc1, 0xb5, 0x90, 0xb9, 0xbb, 0xdc, 0x42, 0x5f, 0x3a, 0x8a, 0x11, 0xf9]
     else if t = ''26'' then
       [0x2e, 0x8e, 0xae, 0x21, 0x0d, 0x8d, 0xb4, 0x94, 0x29, 0x32, 0x23, 0xbb, 0xfa, 0x9e, 0x73, 0x3c]
     else if t = ''27'' then
       [0x14, 0xab, 0xeb, 0x4c, 0x97, 0xda, 0x1e, 0x14, 0x99, 0xd1, 0xa2, 0x4c, 0xbf, 0xcc, 0x52, 0x60]
     else if t = ''28'' then
       [0x12, 0xbc, 0x83, 0x18, 0x3d, 0xf5, 0x34, 0x8e, 0xc3, 0x5c, 0x04, 0xe6, 0x78, 0xb4, 0xf1, 0x0c]
     else if t = ''29'' then
       [0x25, 0x79, 0x24, 0x70, 0x25, 0x63, 0x82, 0xfa, 0xeb, 0x69, 0xf6, 0x59, 0xf6, 0x20, 0x3c, 0x31]
     else if t = ''30'' then
       [0x2d, 0x07, 0xe7, 0x24, 0x10, 0x1e, 0xd2, 0x85, 0x9c, 0xfa, 0xc0, 0xcb, 0x58, 0x0d, 0x21, 0xc0]
     else if t = ''31'' then
       [0xf8, 0x2d, 0x7d, 0xd9, 0x53, 0xd3, 0xdc, 0x13, 0xd9, 0x3e, 0xa3, 0x15, 0xfd, 0x0a, 0x59, 0x50]
     else if t = ''32'' then
       [0xf2, 0xab, 0x57, 0xae, 0x70, 0x2e, 0x89, 0xf4, 0x9a, 0xa4, 0x04, 0x47, 0xb6, 0x97, 0xf2, 0xe1]
     else if t = ''33'' then
       [0x74, 0x4c, 0x08, 0x40, 0x1e, 0x02, 0xef, 0xac, 0x7e, 0xa0, 0xdf, 0xf8, 0x92, 0xe3, 0xb5, 0xa8]
     else if t = ''34'' then
       [0xd7, 0x0b, 0x89, 0x82, 0xab, 0x08, 0xe1, 0x56, 0xb7, 0x47, 0x64, 0x86, 0x7b, 0xc8, 0x33, 0xbf]
     else if t = ''35'' then
       [0x24, 0xfe, 0x13, 0xca, 0xd4, 0x92, 0x84, 0xad, 0xb2, 0x94, 0x5f, 0xd4, 0xa0, 0x13, 0x73, 0xea]
     else if t = ''36'' then
       [0xf3, 0xc6, 0x2d, 0x00, 0xd2, 0x68, 0x70, 0x59, 0xf7, 0xdc, 0x01, 0x42, 0x72, 0xc8, 0x2a, 0x2a]
     else if t = ''37'' then
       [0xe0, 0xc4, 0x8a, 0x0f, 0xd9, 0x90, 0x63, 0x2c, 0x8c, 0xea, 0xf2, 0xe7, 0x08, 0x16, 0xb1, 0x7d]
     else if t = ''38'' then
       [0x95, 0xb2, 0xbd, 0x1b, 0xff, 0x6d, 0x6f, 0x20, 0x3d, 0x7b, 0x3e, 0x99, 0x6b, 0x89, 0xb1, 0x2a]
     else if t = ''39'' then
       [0xf2, 0xb3, 0x83, 0xc4, 0x2e, 0xd6, 0x9f, 0xb6, 0x42, 0xe2, 0x59, 0x7e, 0x47, 0xc4, 0xf2, 0xc0]
     else if t = ''40'' then
       [0x10, 0xc4, 0xc8, 0x76, 0x56, 0x24, 0x53, 0x2e, 0xe4, 0x59, 0xe8, 0xbe, 0x79, 0x97, 0x2c, 0x8a]
     else if t = ''41'' then
       [0x47, 0x6a, 0x23, 0x26, 0x6e, 0xb1, 0x80, 0x4a, 0x94, 0x52, 0xf8, 0x6d, 0x1b, 0x91, 0x41, 0x43]
     else if t = ''42'' then
       [0x52, 0x87, 0xb1, 0xa0, 0x81, 0xa0, 0x6f, 0x6c, 0x66, 0x06, 0xe2, 0xbc, 0x84, 0x00, 0x5b, 0xf2]
     else if t = ''43'' then
       [0x14, 0x1a, 0x0e, 0xd4, 0x4b, 0x4f, 0x83, 0xb3, 0x0e, 0x54, 0x6b, 0xea, 0xa6, 0xf8, 0x3d, 0xfc]
     else if t = ''44'' then
       [0x19, 0xa3, 0xed, 0x49, 0xcc, 0xd2, 0xc4, 0x33, 0x9e, 0xd2, 0x9f, 0x3e, 0x29, 0x79, 0x8e, 0x60]
     else if t = ''45'' then
       [0x63, 0x69, 0x15, 0xc4, 0xbe, 0x40, 0x80, 0x94, 0x77, 0xa0, 0x60, 0x3e, 0x36, 0x68, 0x44, 0x6c]
     else if t = ''46'' then
       [0x84, 0xfb, 0xc2, 0xa5, 0xcc, 0x7a, 0x62, 0x03, 0x03, 0x46, 0x04, 0x8a, 0x97, 0x94, 0xcb, 0x6c]
     else if t = ''47'' then
       [0x2e, 0xb4, 0xcb, 0xcb, 0xf4, 0xf0, 0x0e, 0x6b, 0x6e, 0x00, 0x58, 0xf4, 0x04, 0x31, 0x1a, 0x71]
     else if t = ''48'' then
       [0x7c, 0xe0, 0xc0, 0xdf, 0x04, 0x9f, 0xed, 0x3d, 0xc2, 0xbd, 0xe8, 0xf6, 0x74, 0x89, 0x06, 0x2f]
     else if t = ''49'' then
       [0x16, 0x85, 0x32, 0x45, 0xd7, 0x2d, 0x15, 0xa0, 0xe9, 0xea, 0x5b, 0x52, 0xc0, 0xb9, 0xa3, 0x1c]
     else if t = ''50'' then
       [0x78, 0x46, 0xe3, 0x71, 0x51, 0x83, 0xd5, 0x04, 0x1d, 0x40, 0x6c, 0x1e, 0x8c, 0x8a, 0x53, 0x27]
     else if t = ''51'' then
       [0xbb, 0xf6, 0x33, 0x47, 0xd4, 0xb8, 0xda, 0x73, 0x33, 0x04, 0x49, 0x35, 0x5b, 0x44, 0x8a, 0xbf]
     else if t = ''52'' then
       [0x4b, 0x04, 0xc4, 0xee, 0x3b, 0x69, 0xd3, 0x91, 0x54, 0xa3, 0xdc, 0xb4, 0x81, 0x20, 0x63, 0x08]
     else if t = ''53'' then
       [0x0d, 0x08, 0x4d, 0x66, 0x61, 0xe5, 0x64, 0x5a, 0xa5, 0x5f, 0x8e, 0xc6, 0xa3, 0xf3, 0xfa, 0x04]
     else if t = ''54'' then
       [0x83, 0x2e, 0x46, 0x4d, 0x74, 0x3c, 0x7c, 0xb0, 0xac, 0x3e, 0x85, 0xc2, 0x63, 0x92, 0xc2, 0xef]
     else if t = ''55'' then
       [0x4e, 0x7a, 0xa6, 0x31, 0x5e, 0xd5, 0x5a, 0x92, 0x40, 0x4e, 0x08, 0x8c, 0x14, 0x31, 0x74, 0x0f]
     else if t = ''56'' then
       [0x70, 0x9c, 0x16, 0x12, 0xae, 0xf2, 0x1e, 0x0b, 0x6d, 0x07, 0x2b, 0x5e, 0x3b, 0x86, 0xeb, 0xde]
     else if t = ''57'' then
       [0x5e, 0x58, 0x02, 0x33, 0xdb, 0x19, 0xdb, 0xa8, 0x06, 0x7d, 0xf4, 0x1d, 0xb7, 0x1e, 0xa2, 0x4a]
     else if t = ''58'' then
       [0x69, 0xd0, 0x5c, 0xd8, 0x0b, 0x58, 0x75, 0xa2, 0x1e, 0x22, 0x08, 0xb6, 0x2f, 0xa7, 0x4f, 0x25]
     else if t = ''59'' then
       [0xff, 0xaf, 0xd3, 0x80, 0xa6, 0xc8, 0x7d, 0x1a, 0x27, 0xed, 0xf0, 0xb3, 0x42, 0x3b, 0xb9, 0x39]
     else if t = ''60'' then
       [0x30, 0xf5, 0x38, 0x0c, 0x26, 0x63, 0x9d, 0x91, 0x0b, 0x2b, 0xfe, 0x9e, 0x32, 0x29, 0xb0, 0xc4]
     else if t = ''61'' then
       [0x78, 0x83, 0xb9, 0xeb, 0xd2, 0x12, 0xff, 0x45, 0x96, 0xa2, 0x08, 0xed, 0x64, 0xb1, 0x11, 0x71]
     else if t = ''62'' then
       [0xb6, 0x19, 0xd9, 0x79, 0x7b, 0x39, 0x96, 0x18, 0x6c, 0xbf, 0x76, 0x46, 0x50, 0xf1, 0x1d, 0x59]
     else if t = ''63'' then
       [0x8d, 0x1c, 0x0f, 0x93, 0x96, 0x9e, 0xe6, 0x0d, 0x97, 0x69, 0x67, 0xef, 0xcb, 0xbf, 0x0f, 0x87]
     else if t = ''64'' then
       [0x38, 0x76, 0x16, 0x11, 0xe8, 0xe0, 0x55, 0xed, 0x47, 0x4e, 0x90, 0xd0, 0xef, 0x7a, 0xbf, 0x61]
     else if t = ''65'' then
       [0xa7, 0x56, 0xe8, 0xc8, 0x52, 0x93, 0x92, 0xad, 0x50, 0xb3, 0x39, 0x5e, 0xe9, 0x3d, 0x75, 0xdc]
     else if t = ''66'' then
       [0x1f, 0xcc, 0xe1, 0xbd, 0x67, 0xfd, 0x41, 0x0b, 0x8d, 0xbf, 0x8f, 0xb4, 0x67, 0x05, 0x4e, 0xeb]
     else if t = ''67'' then
       [0x78, 0x38, 0x26, 0x74, 0xb2, 0x1d, 0xee, 0x8d, 0xe9, 0x50, 0x3e, 0xda, 0x46, 0x34, 0xf2, 0x32]
     else if t = ''68'' then
       [0xa0, 0xcf, 0xf7, 0xb7, 0xa6, 0xe6, 0x84, 0x52, 0xc2, 0x50, 0x73, 0xcc, 0x68, 0x01, 0x5c, 0xac]
     else if t = ''69'' then
       [0xa8, 0xd1, 0x82, 0x7f, 0xf2, 0x25, 0x0d, 0xa3, 0x28, 0x0d, 0x7f, 0x75, 0xad, 0x51, 0xaf, 0x2d]
     else if t = ''70'' then
       [0xb3, 0x80, 0xba, 0x03, 0x2d, 0x90, 0xe2, 0x25, 0x0c, 0xb6, 0xc0, 0x1e, 0xe1, 0x82, 0x29, 0x4e]
     else if t = ''71'' then
       [0xdb, 0xed, 0xab, 0x6d, 0xc6, 0x67, 0x13, 0xd9, 0xad, 0xae, 0x70, 0xc0, 0x56, 0x88, 0xd9, 0x7f]
     else if t = ''72'' then
       [0x46, 0x24, 0x06, 0xbd, 0x4b, 0x37, 0x22, 0x3b, 0x12, 0x25, 0xf9, 0xdd, 0xec, 0xce, 0x84, 0xd5]
     else if t = ''73'' then
       [0x3f, 0x7b, 0x27, 0x36, 0xb5, 0x71, 0x9f, 0x04, 0xe2, 0x7d, 0x95, 0xa2, 0x47, 0x99, 0xb1, 0x21]
     else if t = ''74'' then
       [0xc1, 0x81, 0x4d, 0x2a, 0x07, 0xaa, 0xef, 0xd9, 0x0c, 0x65, 0x9a, 0x9a, 0x86, 0xe0, 0xef, 0x2d]
     else if t = ''75'' then
       [0x5f, 0xc1, 0x41, 0x95, 0x84, 0xf8, 0xbf, 0x67, 0x81, 0x5b, 0xd0, 0xf6, 0x4a, 0x44, 0x84, 0x9b]
     else if t = ''76'' then
       [0xb8, 0x27, 0x74, 0xe6, 0xb6, 0xee, 0xfb, 0x8b, 0x9a, 0x04, 0x65, 0xcc, 0xba, 0xc4, 0x9c, 0xe3]
     else if t = ''77'' then
       [0x3e, 0x1f, 0xe6, 0x5d, 0xbe, 0xe5, 0xd4, 0x8f, 0x23, 0xa3, 0x12, 0x49, 0x17, 0xbf, 0xa6, 0x4a]
     else if t = ''78'' then
       [0x04, 0xeb, 0xb6, 0x59, 0xf0, 0x44, 0x9a, 0x97, 0x85, 0x40, 0x9c, 0x45, 0x61, 0x64, 0xf6, 0xf0]
     else if t = ''79'' then
       [0xe7, 0xeb, 0xfe, 0xb3, 0xd5, 0x26, 0xd7, 0xa6, 0x86, 0x8d, 0xbe, 0x0f, 0xcf, 0xc1, 0x24, 0xc2]
     else if t = ''80'' then
       [0x60, 0x1d, 0xa2, 0xd6, 0xec, 0x16, 0x4f, 0xe6, 0x57, 0x7c, 0x5f, 0x51, 0xe0, 0xb2, 0x49, 0x46]
     else if t = ''81'' then
       [0x88, 0x83, 0xe2, 0x6b, 0x68, 0x4d, 0x4b, 0x1a, 0x3c, 0x9b, 0xe5, 0x78, 0xf5, 0x93, 0xe5, 0x06]
     else if t = ''82'' then
       [0x15, 0x9f, 0x00, 0xf8, 0xbc, 0xcb, 0xd5, 0x41, 0x17, 0x9c, 0xee, 0x45, 0x79, 0x8f, 0x6f, 0x88]
     else if t = ''83'' then
       [0xd4, 0xb5, 0xac, 0x1a, 0x1e, 0x77, 0xa4, 0x06, 0xb1, 0x7d, 0xbb, 0xb6, 0x58, 0x5f, 0x95, 0xfe]
     else if t = ''84'' then
       [0xcb, 0xf2, 0xe8, 0x44, 0x3c, 0x6e, 0x03, 0xc8, 0x68, 0xfc, 0xb6, 0x47, 0xfa, 0x59, 0xbb, 0x1e]
     else if t = ''85'' then
       [0x3b, 0x83, 0x9f, 0xe3, 0x49, 0xf7, 0x23, 0x08, 0xf3, 0xa4, 0x59, 0xd7, 0xdd, 0x32, 0x85, 0x0f]
     else if t = ''86'' then
       [0x00, 0xba, 0x49, 0xf1, 0x05, 0x3f, 0x8e, 0xed, 0xcf, 0xc3, 0x38, 0xbf, 0xbe, 0x38, 0x14, 0xd9]
     else if t = ''87'' then
       [0x40, 0x38, 0x1e, 0x2d, 0xe3, 0x14, 0xda, 0xbc, 0xce, 0x6a, 0xd8, 0xcf, 0x3f, 0x90, 0x0c, 0x0d]
     else if t = ''88'' then
       [0x45, 0x7c, 0xe3, 0x17, 0x50, 0xf7, 0xbf, 0x3d, 0x53, 0xc6, 0xe6, 0x3c, 0xa0, 0x13, 0x6a, 0x2a]
     else if t = ''89'' then
       [0xc7, 0x48, 0xfa, 0x38, 0x91, 0x41, 0x8f, 0xdb, 0xcb, 0x7c, 0xb8, 0x23, 0x12, 0x0a, 0xd1, 0xd8]
     else if t = ''90'' then
       [0x07, 0xfd, 0xa0, 0xb7, 0xae, 0xa5, 0x17, 0x6a, 0x26, 0x50, 0xd5, 0x41, 0xcc, 0xdf, 0xbc, 0x94]
     else if t = ''91'' then
       [0x4f, 0x9e, 0xe6, 0x20, 0x87, 0x1a, 0xd8, 0x94, 0x37, 0x8d, 0x30, 0xbd, 0x05, 0x6f, 0x68, 0x56]
     else if t = ''92'' then
       [0xef, 0x04, 0x6d, 0x38, 0xd7, 0xf1, 0xca, 0xfe, 0x93, 0x06, 0xa0, 0x14, 0x0f, 0x8a, 0xc1, 0x39]
     else if t = ''93'' then
       [0xdf, 0xfd, 0x64, 0x2c, 0x41, 0xfe, 0x5a, 0x28, 0xd2, 0x3a, 0xc2, 0xef, 0xbd, 0x47, 0xe5, 0xe0]
     else if t = ''94'' then
       [0x65, 0x32, 0x32, 0x8f, 0x00, 0x08, 0x4f, 0x0a, 0x58, 0x6a, 0x7e, 0xf5, 0xe2, 0x65, 0xd3, 0x9d]
     else if t = ''95'' then
       [0x42, 0xd5, 0xe1, 0x6b, 0xe6, 0xd0, 0x71, 0xbd, 0x96, 0xd8, 0xd9, 0xce, 0x0c, 0x75, 0x4c, 0x34]
     else if t = ''96'' then
       [0xed, 0x85, 0xdd, 0xa6, 0x6b, 0x71, 0x3a, 0x58, 0xbb, 0x75, 0x99, 0xa0, 0xa3, 0x41, 0x9e, 0x0e]
     else if t = ''97'' then
       [0x64, 0x9f, 0x36, 0xc9, 0x7b, 0x07, 0x82, 0x19, 0x87, 0x33, 0xd1, 0x82, 0xd5, 0x49, 0x10, 0x88]
     else if t = ''98'' then
       [0xee, 0x7d, 0x7e, 0x57, 0xed, 0x47, 0xaa, 0xa3, 0x71, 0x1a, 0x01, 0xcd, 0xfa, 0x03, 0xc1, 0x93]
     else if t = ''99'' then
       [0x7f, 0x6e, 0xb3, 0x4c, 0x61, 0xa7, 0x76, 0x59, 0x53, 0xe2, 0xa3, 0x93, 0xb3, 0x77, 0x42, 0x52]
     else [])"

definition digests_server2 :: "string \<Rightarrow> 8 word list" where
  "digests_server2 t =
    (if t = ''0'' then
       [0xc6, 0x93, 0x3b, 0xd8, 0xd0, 0xda, 0xcd, 0x2a, 0x31, 0x4f, 0x62, 0x85, 0x87, 0xa2, 0x75, 0x14]
     else if t = ''1'' then
       [0xc8, 0x81, 0x1b, 0xee, 0x51, 0x14, 0x12, 0xdf, 0x9a, 0xa4, 0xab, 0xa4, 0x09, 0xa5, 0x78, 0xe5]
     else if t = ''2'' then
       [0xfb, 0x25, 0x3f, 0x38, 0x92, 0x6e, 0xde, 0x67, 0xa6, 0xcc, 0x04, 0x6d, 0xc3, 0x5f, 0x85, 0x38]
     else if t = ''3'' then
       [0x71, 0x46, 0x48, 0xf7, 0x8a, 0x54, 0x7a, 0x5f, 0xaa, 0x32, 0x92, 0x2e, 0x9e, 0x9a, 0xfa, 0xdf]
     else if t = ''4'' then
       [0x35, 0x9d, 0x35, 0x22, 0x2b, 0x3f, 0x79, 0x70, 0x2f, 0x81, 0x4a, 0x3b, 0xe2, 0x85, 0x27, 0x41]
     else if t = ''5'' then
       [0x73, 0xf1, 0xc9, 0x3f, 0xda, 0x9f, 0x2e, 0xb7, 0xaa, 0x04, 0xb4, 0x2f, 0x5c, 0xa7, 0x8f, 0x0e]
     else if t = ''6'' then
       [0xc3, 0x5b, 0x69, 0x2a, 0xe6, 0xae, 0xa8, 0xbb, 0xc1, 0x64, 0x9a, 0xa7, 0xd4, 0x25, 0xe2, 0xd9]
     else if t = ''7'' then
       [0x2e, 0xa6, 0x4c, 0x32, 0x2a, 0xd5, 0xff, 0x94, 0xd5, 0x57, 0xd7, 0xe9, 0x40, 0xd5, 0xbb, 0x6b]
     else if t = ''8'' then
       [0xc7, 0x99, 0x3b, 0x3e, 0x4d, 0xee, 0x52, 0x25, 0xf7, 0x62, 0x12, 0xef, 0xa4, 0xeb, 0x13, 0x4d]
     else if t = ''9'' then
       [0x46, 0xb5, 0x90, 0x3b, 0x5a, 0x07, 0xce, 0xa3, 0xbd, 0xf5, 0x93, 0x48, 0x99, 0x5f, 0xc8, 0xca]
     else if t = ''10'' then
       [0xf7, 0x82, 0x7d, 0x6e, 0x44, 0x87, 0xdf, 0xbb, 0x58, 0x1b, 0x88, 0xe0, 0x29, 0x69, 0xc1, 0xba]
     else if t = ''11'' then
       [0x7c, 0x27, 0x49, 0xbd, 0x64, 0xd3, 0x75, 0x5b, 0x80, 0xce, 0xd0, 0xe5, 0xf3, 0xc5, 0xe5, 0xba]
     else if t = ''12'' then
       [0x00, 0xfb, 0xf0, 0x9a, 0xae, 0x76, 0x55, 0x1f, 0xdc, 0xb9, 0xae, 0x0d, 0x67, 0x6a, 0xdf, 0xa3]
     else if t = ''13'' then
       [0xfb, 0x06, 0x36, 0xb5, 0xe7, 0x8e, 0x88, 0x0a, 0xa5, 0x8f, 0xc6, 0x44, 0xf0, 0x13, 0x44, 0x9e]
     else if t = ''14'' then
       [0x87, 0xa4, 0x21, 0xb3, 0x66, 0x17, 0xcb, 0xdd, 0x76, 0x60, 0xeb, 0x7b, 0x2e, 0x56, 0x9f, 0x13]
     else if t = ''15'' then
       [0x32, 0x59, 0xd5, 0x1a, 0x82, 0x3a, 0x39, 0xc0, 0x3f, 0xd7, 0xbd, 0x32, 0x9e, 0x5c, 0xa7, 0x03]
     else if t = ''16'' then
       [0xe4, 0x0f, 0x40, 0x9d, 0x08, 0xab, 0x6f, 0xa2, 0x8a, 0x54, 0x5e, 0x90, 0x31, 0x35, 0xe1, 0xc7]
     else if t = ''17'' then
       [0xcf, 0x08, 0x25, 0x59, 0x1c, 0x5f, 0xba, 0x2d, 0x43, 0xc9, 0xef, 0x66, 0xb0, 0x69, 0x4f, 0xf6]
     else if t = ''18'' then
       [0xf3, 0x18, 0xb9, 0xa9, 0x8f, 0x76, 0xa1, 0x7f, 0xad, 0xf6, 0x40, 0x15, 0x58, 0x17, 0x47, 0x61]
     else if t = ''19'' then
       [0x79, 0xa3, 0xd9, 0xf1, 0xae, 0xa6, 0x6b, 0x65, 0x0c, 0x24, 0x59, 0x6f, 0x0c, 0x9d, 0x68, 0x20]
     else if t = ''20'' then
       [0x01, 0x7c, 0x8b, 0xc9, 0xf0, 0xfc, 0x54, 0x33, 0x59, 0x80, 0x66, 0x44, 0x73, 0x0f, 0xfb, 0x08]
     else if t = ''21'' then
       [0xa8, 0x9d, 0x8a, 0xfc, 0xcf, 0xd5, 0x7a, 0xbb, 0x54, 0x6d, 0x8f, 0xaf, 0x5f, 0x49, 0xe1, 0xe0]
     else if t = ''22'' then
       [0xf6, 0x91, 0x0f, 0x14, 0x70, 0x26, 0xad, 0x5f, 0x25, 0x8e, 0x55, 0xf4, 0xaa, 0x30, 0xd4, 0xda]
     else if t = ''23'' then
       [0x4a, 0xae, 0x08, 0x2f, 0x8a, 0x37, 0x15, 0x63, 0x23, 0x02, 0x7a, 0x86, 0x27, 0xc9, 0x41, 0x89]
     else if t = ''24'' then
       [0x9f, 0x15, 0x1b, 0xa2, 0x6c, 0x79, 0x23, 0x4b, 0x9f, 0xb6, 0x18, 0x4a, 0xd7, 0xd8, 0x14, 0x6a]
     else if t = ''25'' then
       [0x99, 0xb3, 0x44, 0x1d, 0x2b, 0x4e, 0x8c, 0xfd, 0xec, 0xef, 0x49, 0xcb, 0xc7, 0x1b, 0xb6, 0xa4]
     else if t = ''26'' then
       [0x53, 0x4d, 0xaf, 0x7e, 0x41, 0xd4, 0x40, 0x9f, 0x2d, 0x5d, 0x69, 0x2d, 0x32, 0xeb, 0xae, 0xae]
     else if t = ''27'' then
       [0xdc, 0x0c, 0xf3, 0xad, 0x17, 0x69, 0xa0, 0xda, 0x5a, 0xe7, 0xb0, 0xb6, 0x9a, 0x71, 0x40, 0xc3]
     else if t = ''28'' then
       [0xd0, 0x9d, 0xd2, 0x6c, 0xe5, 0x42, 0x4c, 0xba, 0x0a, 0x4a, 0x6f, 0x77, 0xae, 0x6f, 0x50, 0x78]
     else if t = ''29'' then
       [0xb8, 0x13, 0x69, 0xde, 0xf9, 0x7c, 0xba, 0xd5, 0xf6, 0x0e, 0x27, 0xe6, 0xd8, 0x82, 0x06, 0xaa]
     else if t = ''30'' then
       [0xc3, 0x62, 0x53, 0x4e, 0xd5, 0x22, 0x2e, 0xeb, 0x98, 0x97, 0xcc, 0x5a, 0x23, 0x73, 0x65, 0x83]
     else if t = ''31'' then
       [0xe9, 0x52, 0x51, 0xea, 0x9f, 0x79, 0xf9, 0xd9, 0xc4, 0xce, 0x21, 0x73, 0x84, 0xe7, 0xe4, 0x6e]
     else if t = ''32'' then
       [0xc8, 0x98, 0xe7, 0xab, 0xa0, 0xdc, 0x96, 0x18, 0x20, 0x87, 0xfa, 0x9c, 0x3a, 0x5a, 0x6c, 0x28]
     else if t = ''33'' then
       [0xc2, 0x6f, 0x3e, 0x52, 0x1d, 0xfc, 0xf0, 0xbd, 0x82, 0xb4, 0x00, 0x78, 0xfa, 0x22, 0x73, 0xae]
     else if t = ''34'' then
       [0xc4, 0xe8, 0xbe, 0x5c, 0x51, 0xfd, 0xf3, 0xc9, 0x7a, 0x3c, 0x95, 0x37, 0x63, 0x98, 0x1a, 0x41]
     else if t = ''35'' then
       [0xd5, 0xd5, 0xf3, 0xcc, 0x1b, 0xb6, 0x7a, 0x92, 0x7d, 0x09, 0xdf, 0x55, 0xf7, 0xbd, 0xb1, 0xae]
     else if t = ''36'' then
       [0xe1, 0xd2, 0xd7, 0xac, 0x66, 0xd8, 0x8e, 0xeb, 0x11, 0xa6, 0x91, 0xf1, 0x00, 0x46, 0xdd, 0x50]
     else if t = ''37'' then
       [0xd7, 0xbd, 0x62, 0x83, 0x2c, 0x81, 0x27, 0x95, 0xe0, 0x0e, 0x8d, 0x4f, 0xdf, 0x96, 0x5c, 0xb6]
     else if t = ''38'' then
       [0x8e, 0xf2, 0xa6, 0x08, 0xdd, 0x76, 0x19, 0x14, 0xf8, 0x3b, 0x12, 0x1e, 0xc7, 0x42, 0x34, 0x9f]
     else if t = ''39'' then
       [0x6f, 0x65, 0x34, 0x44, 0xe0, 0x62, 0xb6, 0xcb, 0x42, 0xcb, 0x2b, 0x3b, 0x8e, 0xb6, 0xbe, 0xf9]
     else if t = ''40'' then
       [0x52, 0x7f, 0x0f, 0xbb, 0x98, 0x9d, 0xb1, 0x0f, 0x73, 0x30, 0x58, 0xbe, 0x6e, 0xa9, 0x07, 0x37]
     else if t = ''41'' then
       [0xca, 0x8e, 0x25, 0xa9, 0x9f, 0xe9, 0x85, 0x56, 0x3e, 0x6b, 0x71, 0x39, 0x79, 0xac, 0x7d, 0x68]
     else if t = ''42'' then
       [0x20, 0x3b, 0x7d, 0x47, 0xe9, 0x65, 0x15, 0xc7, 0x8b, 0xd5, 0x8b, 0x4f, 0xdf, 0x65, 0x3e, 0x8a]
     else if t = ''43'' then
       [0x66, 0x44, 0x95, 0xe1, 0x1a, 0x3b, 0x36, 0xda, 0x26, 0xa3, 0xac, 0x9b, 0x04, 0x6d, 0x0c, 0x6e]
     else if t = ''44'' then
       [0xe3, 0x7c, 0xb5, 0x30, 0x30, 0xdd, 0xca, 0x76, 0x1e, 0x06, 0x6e, 0xcd, 0xa7, 0xd6, 0xfd, 0x42]
     else if t = ''45'' then
       [0x64, 0x36, 0x4a, 0x30, 0x97, 0x01, 0x50, 0xdf, 0xd9, 0x44, 0x6f, 0xb7, 0x09, 0xf3, 0x8b, 0xe7]
     else if t = ''46'' then
       [0xa6, 0x56, 0xbb, 0x58, 0x11, 0xf2, 0x3f, 0xcc, 0x42, 0x67, 0xdb, 0xfe, 0x3e, 0x1a, 0x18, 0xe7]
     else if t = ''47'' then
       [0x25, 0xa5, 0xde, 0x8e, 0xab, 0xb2, 0x89, 0xfa, 0x64, 0x11, 0x67, 0x31, 0x1f, 0xcb, 0xe1, 0x8a]
     else if t = ''48'' then
       [0xd7, 0xce, 0xdd, 0xc1, 0x47, 0x1d, 0x90, 0x85, 0x09, 0x60, 0x64, 0x02, 0x83, 0x9c, 0x91, 0x92]
     else if t = ''49'' then
       [0x14, 0x77, 0xdc, 0x55, 0x53, 0x99, 0xa3, 0xe3, 0xbc, 0xc7, 0xfe, 0x6c, 0x8e, 0x2f, 0x6b, 0xbf]
     else if t = ''50'' then
       [0xce, 0xb6, 0xe8, 0xdb, 0xc8, 0x51, 0x7f, 0x8e, 0xa8, 0xaf, 0xe7, 0x65, 0xd9, 0x76, 0xa9, 0xa4]
     else if t = ''51'' then
       [0x02, 0x2a, 0x90, 0xda, 0x68, 0x35, 0x16, 0x89, 0x31, 0xd6, 0x35, 0x1b, 0xb6, 0xd6, 0x76, 0xf3]
     else if t = ''52'' then
       [0x16, 0x87, 0x36, 0x0d, 0xf8, 0x83, 0xfc, 0x2d, 0x9b, 0xd2, 0x3d, 0x79, 0xee, 0x2a, 0x33, 0xa4]
     else if t = ''53'' then
       [0xea, 0x1d, 0x01, 0x49, 0x7c, 0xc3, 0xc9, 0xa4, 0xc2, 0xda, 0x8c, 0x64, 0xf7, 0x0b, 0x47, 0x76]
     else if t = ''54'' then
       [0x0c, 0xac, 0xe2, 0x61, 0x24, 0xf1, 0xed, 0x45, 0x7a, 0x66, 0xa7, 0x52, 0xd9, 0x6f, 0x13, 0xe6]
     else if t = ''55'' then
       [0x47, 0xb3, 0xdc, 0x41, 0x22, 0x61, 0x8b, 0x2c, 0xc1, 0x43, 0xdf, 0x85, 0x67, 0x52, 0x7c, 0x91]
     else if t = ''56'' then
       [0xdf, 0xa9, 0x29, 0x40, 0x5c, 0xa0, 0x31, 0x56, 0x2c, 0x20, 0x05, 0x72, 0x1e, 0xeb, 0xe7, 0x86]
     else if t = ''57'' then
       [0x41, 0x15, 0xf4, 0xbe, 0xb1, 0x58, 0xf0, 0xb2, 0xf5, 0x07, 0x2b, 0x66, 0x5b, 0xf6, 0x4e, 0x7b]
     else if t = ''58'' then
       [0x19, 0xb4, 0x57, 0xd6, 0x44, 0x6a, 0xd6, 0x2a, 0xfe, 0x4f, 0x1d, 0xaf, 0x30, 0xd2, 0xf7, 0x05]
     else if t = ''59'' then
       [0xe0, 0x8a, 0xf0, 0x4b, 0xc4, 0x99, 0x7a, 0x0d, 0x03, 0x96, 0x65, 0x86, 0x00, 0xa7, 0x28, 0x9a]
     else if t = ''60'' then
       [0xdf, 0x32, 0x87, 0xc8, 0x6f, 0xab, 0xa8, 0x43, 0x57, 0x3c, 0x31, 0x3a, 0x2a, 0xf3, 0x88, 0xf0]
     else if t = ''61'' then
       [0x6a, 0x7c, 0xe5, 0xa3, 0x7b, 0xc9, 0xd3, 0x88, 0x4e, 0xfc, 0x48, 0x57, 0x23, 0x3f, 0xbb, 0x97]
     else if t = ''62'' then
       [0x2b, 0xee, 0x0f, 0xc0, 0x3b, 0xff, 0xa4, 0x23, 0x82, 0x56, 0x43, 0x41, 0x3d, 0xf8, 0x58, 0x7b]
     else if t = ''63'' then
       [0x65, 0x66, 0xa4, 0x1a, 0x37, 0x70, 0xa3, 0xe5, 0x13, 0xd7, 0x2a, 0x0a, 0x16, 0xf4, 0x5f, 0xff]
     else if t = ''64'' then
       [0x56, 0x32, 0x95, 0x20, 0x39, 0xcb, 0x77, 0x6b, 0x34, 0xcf, 0xd9, 0x3a, 0x93, 0x0f, 0x9a, 0x65]
     else if t = ''65'' then
       [0x3a, 0xfa, 0x40, 0x4b, 0xce, 0x08, 0x4d, 0x79, 0x9f, 0x1c, 0x30, 0xfa, 0xdc, 0xc4, 0xe7, 0xec]
     else if t = ''66'' then
       [0x8e, 0xfb, 0x07, 0x58, 0x1b, 0x74, 0xaf, 0x63, 0xf9, 0x4b, 0xa7, 0x9d, 0x4d, 0x15, 0x74, 0x7a]
     else if t = ''67'' then
       [0x59, 0x7d, 0x21, 0xe3, 0x03, 0x5e, 0xdd, 0x63, 0xd5, 0x6c, 0x3c, 0xa3, 0x31, 0x6d, 0x34, 0x2b]
     else if t = ''68'' then
       [0xcb, 0x1a, 0x03, 0x87, 0xf4, 0xc3, 0x13, 0xc8, 0x05, 0x5b, 0x19, 0xcd, 0x57, 0xd6, 0x33, 0x5a]
     else if t = ''69'' then
       [0xcf, 0x27, 0x4a, 0x52, 0x09, 0xf9, 0x83, 0xe2, 0x93, 0x86, 0xd5, 0xfb, 0x01, 0x7e, 0x43, 0xf8]
     else if t = ''70'' then
       [0xb3, 0x61, 0xde, 0x82, 0x55, 0xf4, 0xa4, 0xed, 0x14, 0x0b, 0xfd, 0x79, 0xdb, 0xb5, 0x37, 0x68]
     else if t = ''71'' then
       [0x17, 0xc7, 0xa1, 0xe7, 0x27, 0x97, 0xfd, 0xa2, 0x22, 0x93, 0x69, 0x0a, 0x2f, 0xcf, 0xd6, 0x25]
     else if t = ''72'' then
       [0x0a, 0x59, 0x0b, 0x99, 0x89, 0x6e, 0x70, 0x4c, 0xad, 0x98, 0xfc, 0xfd, 0x0f, 0xeb, 0xb2, 0xfa]
     else if t = ''73'' then
       [0xf1, 0x5b, 0x00, 0x18, 0xef, 0xb5, 0xb9, 0xb6, 0x4d, 0x6e, 0x8d, 0xb7, 0xaf, 0xed, 0x67, 0x88]
     else if t = ''74'' then
       [0x9e, 0xa4, 0x97, 0xd9, 0x0b, 0x38, 0x0e, 0xa4, 0x05, 0x8f, 0x06, 0x84, 0x72, 0xfd, 0x94, 0xc2]
     else if t = ''75'' then
       [0xfa, 0xbe, 0xbb, 0x09, 0xa3, 0x3a, 0x3e, 0xf1, 0x49, 0x0f, 0x6f, 0x97, 0xa2, 0xb0, 0x6f, 0x4e]
     else if t = ''76'' then
       [0xee, 0x89, 0x86, 0x41, 0x4b, 0x0c, 0x3a, 0xa9, 0x04, 0xe2, 0x2f, 0x15, 0xea, 0xa4, 0x66, 0x6f]
     else if t = ''77'' then
       [0x9d, 0x10, 0x9e, 0x12, 0x04, 0xdf, 0xda, 0x65, 0x7d, 0xa5, 0xbd, 0x4d, 0x3f, 0x03, 0xe2, 0x90]
     else if t = ''78'' then
       [0x53, 0x86, 0x9d, 0xac, 0x4f, 0x8a, 0xaa, 0x6a, 0xc5, 0x01, 0x0a, 0xfa, 0x56, 0xba, 0x01, 0x90]
     else if t = ''79'' then
       [0x88, 0x67, 0x81, 0xeb, 0x79, 0x44, 0x25, 0xac, 0x84, 0xdd, 0xcf, 0x39, 0xcc, 0xdd, 0x53, 0x03]
     else if t = ''80'' then
       [0xd1, 0x54, 0x02, 0x28, 0xf4, 0x26, 0x1c, 0x5b, 0x1c, 0xfc, 0xf2, 0x8a, 0xcb, 0x5b, 0x41, 0x15]
     else if t = ''81'' then
       [0x69, 0x68, 0x1c, 0x79, 0x94, 0xea, 0x2a, 0x36, 0xce, 0x58, 0x58, 0xcd, 0xc9, 0x08, 0x2b, 0x14]
     else if t = ''82'' then
       [0x8e, 0x5e, 0x42, 0x9a, 0xb4, 0x39, 0xae, 0x37, 0x0f, 0xe9, 0x5d, 0x52, 0xa3, 0x8a, 0xe7, 0x16]
     else if t = ''83'' then
       [0x90, 0x5f, 0x3e, 0x8e, 0xe7, 0x47, 0x8c, 0xce, 0x05, 0x0b, 0xca, 0x92, 0xcd, 0x0d, 0x19, 0xef]
     else if t = ''84'' then
       [0xcf, 0x6e, 0x55, 0x8a, 0x1a, 0x62, 0xd6, 0x0b, 0x95, 0x68, 0x40, 0x40, 0x7e, 0xfd, 0xe1, 0xd0]
     else if t = ''85'' then
       [0xcc, 0x8d, 0x31, 0x19, 0xd7, 0x19, 0x5a, 0x97, 0xa6, 0x03, 0xbd, 0xff, 0x8e, 0xb9, 0x9d, 0xda]
     else if t = ''86'' then
       [0xb6, 0x01, 0xe4, 0x31, 0x6c, 0x9b, 0x0f, 0x1c, 0xf2, 0x88, 0xc1, 0x6f, 0x95, 0x15, 0x4b, 0x51]
     else if t = ''87'' then
       [0x9a, 0xe9, 0xea, 0x8f, 0x1d, 0x02, 0x68, 0x68, 0xea, 0xe4, 0x97, 0xbd, 0x90, 0x99, 0x3a, 0xd7]
     else if t = ''88'' then
       [0x27, 0xb0, 0x28, 0x0e, 0x67, 0xeb, 0x47, 0x34, 0xfc, 0x7b, 0x10, 0x38, 0x66, 0xcd, 0x14, 0x47]
     else if t = ''89'' then
       [0xbb, 0x88, 0x1b, 0x96, 0x41, 0x0d, 0xe7, 0xeb, 0xd7, 0x42, 0x43, 0x93, 0xd3, 0xbd, 0xf2, 0xf5]
     else if t = ''90'' then
       [0x40, 0x3b, 0x48, 0x1c, 0x70, 0x84, 0xde, 0xd6, 0x2d, 0x32, 0x6f, 0x11, 0x5f, 0xe5, 0x61, 0x88]
     else if t = ''91'' then
       [0x98, 0x26, 0xbb, 0x73, 0x3b, 0xd5, 0x20, 0x1f, 0x7b, 0x00, 0x00, 0xd8, 0x4e, 0x71, 0x49, 0xe9]
     else if t = ''92'' then
       [0x9b, 0x5e, 0xed, 0x22, 0x40, 0x27, 0x38, 0x8a, 0x15, 0x12, 0xe1, 0xca, 0x54, 0x14, 0x19, 0x87]
     else if t = ''93'' then
       [0x46, 0x6f, 0xde, 0xc7, 0xe7, 0xc4, 0xc5, 0xa6, 0xcf, 0x86, 0xd8, 0x9b, 0x5c, 0xe2, 0x4f, 0x70]
     else if t = ''94'' then
       [0xcf, 0xb7, 0xbd, 0x8b, 0x88, 0x94, 0x58, 0x57, 0x95, 0xe3, 0x84, 0x1a, 0x12, 0xed, 0x05, 0x77]
     else if t = ''95'' then
       [0x72, 0xf8, 0x22, 0xc2, 0x97, 0xd3, 0xd8, 0x86, 0xa6, 0xcb, 0x7d, 0xca, 0xb1, 0x07, 0x46, 0xe8]
     else if t = ''96'' then
       [0x36, 0x8e, 0x87, 0x05, 0x0e, 0x04, 0xa0, 0x48, 0x10, 0x1f, 0xd5, 0x73, 0x1d, 0xb3, 0x79, 0x5c]
     else if t = ''97'' then
       [0x5e, 0xa1, 0x31, 0x94, 0x46, 0xf0, 0x67, 0xf8, 0x43, 0x4f, 0x06, 0xfb, 0xbe, 0x0d, 0x20, 0x13]
     else if t = ''98'' then
       [0x34, 0xd7, 0x0e, 0x83, 0xbd, 0xa4, 0x94, 0x40, 0x86, 0x77, 0x8a, 0xb2, 0xf9, 0xbf, 0xe2, 0x70]
     else if t = ''99'' then
       [0x49, 0x46, 0x05, 0xa8, 0x17, 0x2e, 0x39, 0xff, 0xee, 0x45, 0x9b, 0x2a, 0x72, 0x4e, 0x77, 0x73]
     else [])"

definition digests_server147308 :: "string \<Rightarrow> 8 word list" where
  "digests_server147308 t =
    (if t = ''0'' then
       [0x75, 0xec, 0x02, 0xc2, 0xbc, 0x3b, 0x26, 0x52, 0x3f, 0x4f, 0x3f, 0x5a, 0xf6, 0xc0, 0xdd, 0x2f]
     else if t = ''1'' then
       [0xe8, 0x30, 0x94, 0xed, 0xdf, 0x20, 0x76, 0xf5, 0xa9, 0xde, 0xc3, 0x76, 0xe9, 0xcf, 0xa3, 0xdc]
     else if t = ''2'' then
       [0x2f, 0xa1, 0x84, 0x2b, 0x0e, 0xf0, 0xed, 0xfc, 0x49, 0xac, 0xd6, 0x72, 0x5f, 0x35, 0x12, 0x68]
     else if t = ''3'' then
       [0x28, 0xf0, 0x82, 0x50, 0x77, 0x4a, 0xab, 0xbc, 0xc7, 0x77, 0x72, 0xff, 0x19, 0x0a, 0xc5, 0x20]
     else if t = ''4'' then
       [0xea, 0xe1, 0x59, 0x2a, 0x6e, 0x4d, 0xc9, 0x25, 0x2f, 0x57, 0x60, 0xed, 0x4c, 0x61, 0x3a, 0xcd]
     else if t = ''5'' then
       [0x66, 0xf7, 0x0f, 0x29, 0xa5, 0x6a, 0x6f, 0xba, 0x5b, 0x25, 0x80, 0xe7, 0x30, 0x4d, 0x8a, 0x49]
     else if t = ''6'' then
       [0x50, 0x76, 0x43, 0xce, 0xa6, 0xe7, 0xc3, 0x9f, 0x62, 0x52, 0xac, 0x93, 0xda, 0xfd, 0x1c, 0xb6]
     else if t = ''7'' then
       [0x58, 0x0f, 0x50, 0x39, 0x6d, 0x5d, 0x10, 0x08, 0xa2, 0xb3, 0xcb, 0x75, 0x87, 0xeb, 0x03, 0x40]
     else if t = ''8'' then
       [0x10, 0xc5, 0x2a, 0x55, 0xff, 0xce, 0xbe, 0xb2, 0xbb, 0xb0, 0xcd, 0x81, 0xbd, 0x92, 0x9f, 0xa0]
     else if t = ''9'' then
       [0x61, 0x39, 0x46, 0xd9, 0x84, 0xdf, 0xd8, 0x43, 0x32, 0xc9, 0x5c, 0xc5, 0x87, 0xf6, 0xb2, 0xe7]
     else if t = ''10'' then
       [0xfd, 0x3e, 0xe4, 0xd2, 0xab, 0xe7, 0x1f, 0x06, 0x7c, 0x69, 0xab, 0x5a, 0xad, 0x2a, 0x55, 0xc0]
     else if t = ''11'' then
       [0xd4, 0xe4, 0x22, 0xa3, 0xb7, 0x5b, 0xd3, 0x28, 0x44, 0xd4, 0x56, 0x8f, 0x61, 0x52, 0x12, 0xd5]
     else if t = ''12'' then
       [0x4a, 0x84, 0xdd, 0xa8, 0x24, 0xed, 0x77, 0x62, 0x56, 0xbc, 0x83, 0x71, 0xd7, 0x96, 0x47, 0xc6]
     else if t = ''13'' then
       [0x8f, 0xcf, 0x29, 0x15, 0x4e, 0x10, 0x94, 0xca, 0x8f, 0xa4, 0x29, 0xf2, 0xb1, 0x9d, 0xbf, 0x4f]
     else if t = ''14'' then
       [0x72, 0x6f, 0x85, 0xd9, 0xc6, 0x12, 0x33, 0x34, 0x4b, 0xd0, 0xa2, 0x2a, 0xcf, 0x8a, 0x31, 0x70]
     else if t = ''15'' then
       [0x81, 0x03, 0x10, 0xf3, 0xbe, 0xf8, 0x4b, 0xff, 0x0b, 0xca, 0x48, 0xb4, 0xd0, 0x82, 0x66, 0x97]
     else if t = ''16'' then
       [0xff, 0x14, 0x7f, 0x6c, 0x3f, 0xea, 0x0d, 0xbd, 0x40, 0x98, 0x77, 0x34, 0x72, 0x69, 0x58, 0x51]
     else if t = ''17'' then
       [0x1d, 0x00, 0x6c, 0xdb, 0x11, 0x8c, 0x9b, 0xdf, 0x9c, 0x05, 0x6c, 0xca, 0x86, 0x3b, 0x1e, 0x31]
     else if t = ''18'' then
       [0xb5, 0x76, 0x8c, 0xc3, 0xdc, 0x40, 0xac, 0x3c, 0xb5, 0x08, 0x39, 0x13, 0xf5, 0x3e, 0xb0, 0x4b]
     else if t = ''19'' then
       [0x48, 0x0a, 0xfc, 0x15, 0xf1, 0x50, 0xb7, 0x02, 0x7f, 0x02, 0x06, 0xd6, 0xd9, 0x2f, 0xd9, 0x04]
     else if t = ''20'' then
       [0x14, 0x8a, 0xeb, 0xbe, 0xa1, 0x87, 0x26, 0x4d, 0x8a, 0x73, 0x99, 0xed, 0xf1, 0xf7, 0x65, 0x12]
     else if t = ''21'' then
       [0x11, 0x3e, 0x10, 0x28, 0x54, 0xf5, 0x4f, 0xfd, 0xf4, 0x41, 0x4e, 0x49, 0x39, 0x9e, 0xbc, 0xb6]
     else if t = ''22'' then
       [0x9a, 0xe2, 0xfe, 0xea, 0x70, 0x3f, 0xec, 0x86, 0x0c, 0xbb, 0x1b, 0x53, 0x6d, 0x4e, 0x58, 0x0f]
     else if t = ''23'' then
       [0xcc, 0x95, 0x28, 0x92, 0x70, 0x9b, 0x95, 0xfa, 0xfa, 0xf2, 0xa4, 0x12, 0xe7, 0x9a, 0x8d, 0xa9]
     else if t = ''24'' then
       [0x14, 0xe1, 0x2e, 0x2f, 0xf7, 0x64, 0x9e, 0x15, 0x17, 0x6a, 0x48, 0x96, 0x58, 0x8e, 0xb5, 0xf6]
     else if t = ''25'' then
       [0x5f, 0xa9, 0xc4, 0x81, 0x00, 0x17, 0xa1, 0x3e, 0x5d, 0xc4, 0x23, 0x96, 0xcb, 0x37, 0x95, 0x0c]
     else if t = ''26'' then
       [0x3e, 0x13, 0xb7, 0x9a, 0x79, 0x83, 0x00, 0x7c, 0x8a, 0x81, 0x3c, 0xbd, 0x01, 0x47, 0x9d, 0x85]
     else if t = ''27'' then
       [0x23, 0xb5, 0xe7, 0x8c, 0x13, 0xcf, 0xda, 0x63, 0xd8, 0x0e, 0x3c, 0x2a, 0x72, 0x75, 0x56, 0xf1]
     else if t = ''28'' then
       [0xa7, 0x30, 0x8e, 0xfc, 0xb5, 0x2c, 0x6a, 0x3c, 0xd6, 0xb4, 0x84, 0x2f, 0xe6, 0x70, 0xab, 0xd1]
     else if t = ''29'' then
       [0x58, 0x88, 0x93, 0x01, 0x99, 0x81, 0xf4, 0x67, 0x43, 0xd9, 0x66, 0x25, 0xdb, 0x3c, 0xda, 0xa3]
     else if t = ''30'' then
       [0x25, 0x35, 0x01, 0x59, 0x52, 0x78, 0x56, 0xd2, 0xe8, 0xfb, 0xfb, 0xee, 0x07, 0xfd, 0xfb, 0x8e]
     else if t = ''31'' then
       [0x75, 0xef, 0x25, 0x43, 0x25, 0x27, 0x75, 0x39, 0x99, 0xf9, 0xb8, 0x70, 0xbd, 0x88, 0x33, 0x6c]
     else if t = ''32'' then
       [0x0d, 0x4e, 0x8d, 0xbd, 0xb2, 0xa1, 0x0e, 0x7c, 0x27, 0x05, 0xfc, 0x56, 0x5c, 0x97, 0x99, 0x1b]
     else if t = ''33'' then
       [0x8d, 0x2b, 0xcc, 0x57, 0x49, 0xec, 0xa2, 0xdb, 0x34, 0xc7, 0x11, 0x62, 0xe8, 0x8c, 0x8a, 0xec]
     else if t = ''34'' then
       [0xe8, 0xd3, 0x4c, 0x6f, 0xd6, 0x86, 0x7d, 0xac, 0xda, 0xd1, 0x86, 0xb3, 0x35, 0x3a, 0x04, 0xb3]
     else if t = ''35'' then
       [0x7f, 0xb3, 0xe0, 0x73, 0xa6, 0x64, 0x34, 0x8b, 0x11, 0x10, 0xea, 0xbb, 0xd2, 0x3b, 0xbb, 0x46]
     else if t = ''36'' then
       [0x09, 0x4b, 0x33, 0x44, 0x26, 0x4c, 0x6f, 0x74, 0x40, 0x9b, 0x15, 0x52, 0x76, 0x11, 0x7a, 0xcb]
     else if t = ''37'' then
       [0x6c, 0xc0, 0xcc, 0x2a, 0x0b, 0x7a, 0x0e, 0xc5, 0x7c, 0x33, 0x7d, 0xb6, 0xb5, 0xad, 0xd3, 0x2b]
     else if t = ''38'' then
       [0x8e, 0x4c, 0x3e, 0x9f, 0x7a, 0x47, 0x3a, 0xd9, 0x7e, 0x6f, 0x52, 0xcf, 0xe2, 0x40, 0xcb, 0xf2]
     else if t = ''39'' then
       [0xf7, 0x12, 0xc8, 0x98, 0x7d, 0x61, 0x65, 0x05, 0x00, 0x09, 0xf1, 0x84, 0x64, 0x9b, 0x46, 0xe4]
     else if t = ''40'' then
       [0xd6, 0x9a, 0xd9, 0xc0, 0x05, 0xcd, 0x14, 0x6e, 0xef, 0x9b, 0x9e, 0x4d, 0x57, 0x87, 0x7a, 0x0a]
     else if t = ''41'' then
       [0x0f, 0x8d, 0x71, 0x04, 0x33, 0x41, 0x1e, 0x33, 0x71, 0x30, 0x56, 0x95, 0xe3, 0x47, 0xa8, 0x13]
     else if t = ''42'' then
       [0x8e, 0x49, 0xfe, 0xc9, 0xc4, 0x68, 0xd1, 0x8f, 0x60, 0x28, 0xf8, 0x93, 0x30, 0xcb, 0x0c, 0x77]
     else if t = ''43'' then
       [0x41, 0x2f, 0xb1, 0xfd, 0x35, 0xcc, 0xe8, 0x97, 0x18, 0x41, 0x11, 0x44, 0xc0, 0x9a, 0x1a, 0xa5]
     else if t = ''44'' then
       [0xd8, 0xb0, 0x12, 0x5d, 0xfc, 0xae, 0x57, 0xa2, 0x82, 0x8c, 0x8b, 0xb5, 0x3f, 0xbc, 0xdb, 0x02]
     else if t = ''45'' then
       [0x0f, 0x30, 0xa7, 0xf4, 0x87, 0x24, 0xc2, 0x44, 0x0c, 0x58, 0x2b, 0x90, 0x27, 0x33, 0xae, 0x70]
     else if t = ''46'' then
       [0x15, 0x5a, 0x4d, 0xe9, 0x04, 0xdf, 0xbd, 0x1f, 0x2c, 0xd7, 0x24, 0xa7, 0xbe, 0xfd, 0x8c, 0x03]
     else if t = ''47'' then
       [0x43, 0x73, 0x17, 0x40, 0xb9, 0x3a, 0xe2, 0x91, 0x1c, 0xef, 0x84, 0x1b, 0x97, 0xb4, 0xa9, 0x74]
     else if t = ''48'' then
       [0x7b, 0x32, 0xc1, 0xac, 0x55, 0xbe, 0x79, 0xe7, 0xf4, 0x23, 0x54, 0xf2, 0xc3, 0x56, 0x31, 0xf2]
     else if t = ''49'' then
       [0x5b, 0x3b, 0x4d, 0x2e, 0xc2, 0xd9, 0x49, 0x5c, 0x70, 0x6a, 0x74, 0x46, 0x4c, 0x26, 0x19, 0xb2]
     else if t = ''50'' then
       [0xaf, 0x46, 0x48, 0xe5, 0x0e, 0x4b, 0xa7, 0xbe, 0x7d, 0xba, 0x93, 0xdc, 0x71, 0x61, 0x59, 0x2d]
     else if t = ''51'' then
       [0x1f, 0x1d, 0xf6, 0x97, 0x22, 0xac, 0x65, 0xb0, 0x70, 0xc7, 0x90, 0x8b, 0x7d, 0x9c, 0x51, 0x77]
     else if t = ''52'' then
       [0xea, 0xa1, 0xda, 0x02, 0x16, 0x77, 0x77, 0xe7, 0x36, 0x6a, 0x4b, 0xe7, 0xcc, 0x3e, 0xa5, 0xe8]
     else if t = ''53'' then
       [0x53, 0x2d, 0xa2, 0x41, 0x0d, 0x88, 0x52, 0x07, 0xe7, 0x30, 0xe1, 0x04, 0xd3, 0x4b, 0x62, 0x4c]
     else if t = ''54'' then
       [0x37, 0x15, 0xfa, 0xf4, 0x1e, 0x04, 0x7a, 0x05, 0x86, 0xa0, 0xe1, 0xb9, 0x8f, 0x2f, 0xf1, 0x42]
     else if t = ''55'' then
       [0x12, 0x8d, 0x7a, 0xd7, 0x67, 0xca, 0x87, 0x06, 0xad, 0x22, 0xbd, 0xc6, 0x40, 0x6c, 0xe0, 0xde]
     else if t = ''56'' then
       [0xea, 0xa3, 0xc9, 0x92, 0x07, 0x94, 0xb9, 0x0c, 0x22, 0xb6, 0x56, 0xba, 0x25, 0xa7, 0x39, 0x26]
     else if t = ''57'' then
       [0x6a, 0x1d, 0xc8, 0x2d, 0x0e, 0xdb, 0x64, 0xb1, 0xdb, 0x89, 0x02, 0x64, 0xdb, 0x15, 0x65, 0x8f]
     else if t = ''58'' then
       [0x5d, 0x55, 0xa8, 0x4c, 0x99, 0x51, 0xe4, 0x39, 0x35, 0x0c, 0x91, 0x4e, 0xa1, 0x20, 0xb1, 0x00]
     else if t = ''59'' then
       [0x2f, 0x8c, 0x83, 0x66, 0x31, 0x8b, 0x26, 0x44, 0x67, 0x35, 0x3b, 0xbf, 0x36, 0x14, 0xf3, 0x3d]
     else if t = ''60'' then
       [0x05, 0xeb, 0xc4, 0x76, 0xac, 0xf1, 0x96, 0xe3, 0xfe, 0xa6, 0x74, 0x10, 0x58, 0x3f, 0x66, 0x06]
     else if t = ''61'' then
       [0x4c, 0xe6, 0x3f, 0xb4, 0xb7, 0x45, 0x3c, 0xfc, 0x4a, 0x69, 0x17, 0xdf, 0x0e, 0x0a, 0x10, 0x2b]
     else if t = ''62'' then
       [0x86, 0xc5, 0x93, 0x9a, 0xd5, 0xb5, 0x44, 0x33, 0xda, 0xf9, 0x9b, 0x6d, 0xaf, 0x09, 0xf7, 0xa2]
     else if t = ''63'' then
       [0x68, 0xb2, 0x8d, 0x1c, 0xf8, 0x5e, 0xe3, 0x65, 0x99, 0x06, 0xdd, 0xea, 0xe7, 0xb0, 0xb2, 0x7b]
     else if t = ''64'' then
       [0x98, 0x67, 0x2d, 0x7d, 0x58, 0x27, 0xd2, 0xfc, 0x6d, 0x9d, 0x8e, 0x5b, 0xd4, 0x00, 0x11, 0x1d]
     else if t = ''65'' then
       [0xbe, 0xfd, 0x67, 0x70, 0x3f, 0xdc, 0x51, 0xa5, 0x53, 0xa0, 0xe7, 0x0b, 0x59, 0x88, 0x5c, 0x18]
     else if t = ''66'' then
       [0x8f, 0x8b, 0x22, 0xa3, 0xa0, 0x40, 0x50, 0x24, 0xa5, 0xb7, 0xab, 0xc1, 0x03, 0x06, 0xa7, 0xca]
     else if t = ''67'' then
       [0xb2, 0xa8, 0x88, 0x92, 0xd3, 0x4d, 0x1d, 0xed, 0x83, 0x67, 0xee, 0x46, 0xc4, 0xa4, 0x1f, 0xfb]
     else if t = ''68'' then
       [0x01, 0xbf, 0xe8, 0x78, 0x21, 0x4f, 0x5f, 0x2e, 0x77, 0x16, 0x35, 0xff, 0x43, 0x7e, 0xa9, 0x19]
     else if t = ''69'' then
       [0x06, 0xa3, 0x28, 0xb5, 0xdf, 0x6a, 0x64, 0xa2, 0xa3, 0x03, 0xe2, 0x80, 0x65, 0x75, 0x15, 0x3d]
     else if t = ''70'' then
       [0xbd, 0xd0, 0xe4, 0x6e, 0x42, 0xd2, 0x15, 0x7b, 0xf2, 0x35, 0xf4, 0xf1, 0x4a, 0xb6, 0x39, 0xfc]
     else if t = ''71'' then
       [0x94, 0x93, 0x8f, 0x56, 0x09, 0x12, 0x68, 0xe2, 0x69, 0x3b, 0x1f, 0xaa, 0x0e, 0x4e, 0xa9, 0xab]
     else if t = ''72'' then
       [0xc0, 0x9f, 0xff, 0x92, 0x22, 0xa3, 0x55, 0xd7, 0xc8, 0xb3, 0x69, 0x35, 0x45, 0xb4, 0x14, 0xd1]
     else if t = ''73'' then
       [0x78, 0x66, 0xb2, 0x5f, 0x06, 0x5e, 0xf8, 0x60, 0x13, 0xbb, 0x9a, 0x15, 0x47, 0x5f, 0xd7, 0x85]
     else if t = ''74'' then
       [0x14, 0xc7, 0x8c, 0x64, 0xf3, 0x39, 0xf6, 0xbc, 0x3f, 0x48, 0xae, 0x83, 0xe7, 0x5c, 0x93, 0x3d]
     else if t = ''75'' then
       [0x6d, 0x2e, 0xab, 0xe4, 0x4f, 0xaf, 0x31, 0xf2, 0xb8, 0x2f, 0x0d, 0x52, 0x61, 0xca, 0xb9, 0xae]
     else if t = ''76'' then
       [0xb7, 0x7c, 0xc1, 0x2e, 0x0a, 0x85, 0x28, 0x2c, 0xf8, 0x98, 0x35, 0x34, 0xba, 0xa3, 0x06, 0x2e]
     else if t = ''77'' then
       [0xf5, 0x20, 0x84, 0x46, 0x24, 0xb0, 0x40, 0x4c, 0xee, 0x77, 0x28, 0x1c, 0x10, 0xa4, 0x2b, 0x4c]
     else if t = ''78'' then
       [0x49, 0xb1, 0xd9, 0xf3, 0x90, 0xd2, 0x9d, 0x4f, 0x45, 0x2d, 0xa5, 0x27, 0x51, 0x82, 0xf6, 0x7d]
     else if t = ''79'' then
       [0xb5, 0x97, 0x5e, 0x84, 0x11, 0x7a, 0xa8, 0x99, 0x4e, 0x57, 0x6f, 0x53, 0xf2, 0x5d, 0x52, 0x85]
     else if t = ''80'' then
       [0x46, 0xcd, 0x6c, 0x96, 0xde, 0x6f, 0x43, 0x86, 0x68, 0xd9, 0xd1, 0xa1, 0x37, 0xc4, 0x91, 0x31]
     else if t = ''81'' then
       [0x11, 0x2c, 0x52, 0xef, 0xee, 0xb4, 0x87, 0x31, 0xaf, 0xfb, 0x06, 0x34, 0x29, 0xc0, 0x29, 0x72]
     else if t = ''82'' then
       [0xeb, 0x72, 0x0d, 0x62, 0xbd, 0xcd, 0x5c, 0xdc, 0xf2, 0x6a, 0x6b, 0x59, 0x6a, 0x58, 0x3e, 0x79]
     else if t = ''83'' then
       [0x62, 0xb6, 0x52, 0x13, 0x90, 0x6b, 0x52, 0x52, 0x3e, 0xaf, 0xd9, 0x49, 0x37, 0xf1, 0x3a, 0x10]
     else if t = ''84'' then
       [0x9d, 0x83, 0x4c, 0x11, 0x6b, 0x77, 0xbc, 0x18, 0xe3, 0xf1, 0xf9, 0x32, 0x16, 0xb7, 0x2c, 0x75]
     else if t = ''85'' then
       [0xd6, 0x3c, 0xb0, 0x70, 0x0f, 0x77, 0xa7, 0x69, 0x24, 0x42, 0x20, 0x31, 0x89, 0x16, 0x7e, 0x14]
     else if t = ''86'' then
       [0x61, 0xfe, 0xa9, 0x92, 0xd9, 0xde, 0xd0, 0x00, 0x55, 0x82, 0x6a, 0xd7, 0x57, 0xba, 0xdb, 0xda]
     else if t = ''87'' then
       [0xa7, 0x30, 0x8e, 0xfc, 0x61, 0xd6, 0x29, 0xcf, 0xf2, 0xbb, 0x7b, 0x70, 0xed, 0xf3, 0x83, 0xb2]
     else if t = ''88'' then
       [0xc7, 0x53, 0x73, 0x22, 0xc0, 0x92, 0x4d, 0x82, 0xd6, 0x83, 0xe7, 0x7f, 0x83, 0x6f, 0x93, 0x3e]
     else if t = ''89'' then
       [0xfd, 0xd9, 0x8d, 0x38, 0x81, 0x9d, 0xc6, 0xbd, 0x4b, 0x6f, 0x72, 0x60, 0xea, 0x64, 0xf7, 0xae]
     else if t = ''90'' then
       [0xb4, 0x05, 0x43, 0x0d, 0x23, 0x36, 0x9f, 0xe8, 0xe0, 0x5d, 0xe8, 0xf2, 0xe3, 0x18, 0xf5, 0xe9]
     else if t = ''91'' then
       [0x14, 0xee, 0x33, 0xd8, 0x4d, 0x23, 0xc5, 0xbe, 0x36, 0x4e, 0x04, 0x33, 0xd4, 0x9a, 0x30, 0x62]
     else if t = ''92'' then
       [0x6e, 0x25, 0x48, 0x8e, 0xc4, 0x2e, 0x17, 0x19, 0x7f, 0x9e, 0x0a, 0xb1, 0x0d, 0xe4, 0x53, 0x2d]
     else if t = ''93'' then
       [0xe7, 0xc2, 0x4e, 0x16, 0x70, 0x85, 0x4a, 0xd9, 0x31, 0x68, 0x62, 0x7b, 0x52, 0xaf, 0xdf, 0xd9]
     else if t = ''94'' then
       [0x4d, 0x47, 0xdb, 0x60, 0x85, 0xa3, 0xa7, 0xc6, 0x72, 0xde, 0xa4, 0xd8, 0x73, 0x6d, 0xc0, 0x6d]
     else if t = ''95'' then
       [0xac, 0xaa, 0x44, 0xf3, 0x58, 0x06, 0xe8, 0xeb, 0x54, 0xe9, 0x27, 0xf4, 0x39, 0xbf, 0xe9, 0x77]
     else if t = ''96'' then
       [0xb4, 0x4e, 0xa3, 0x08, 0x92, 0xf1, 0x94, 0x04, 0x2a, 0xfc, 0x74, 0xaf, 0x67, 0xfd, 0x2b, 0x10]
     else if t = ''97'' then
       [0x6d, 0x36, 0x6a, 0x36, 0xe5, 0xd5, 0x95, 0x61, 0x5a, 0xee, 0x97, 0x01, 0x5e, 0xf2, 0x89, 0xc7]
     else if t = ''98'' then
       [0xd8, 0xcd, 0xe4, 0xbc, 0xf3, 0x2b, 0x6c, 0xd7, 0x0b, 0x88, 0xd9, 0xa8, 0x46, 0xd5, 0xb6, 0x18]
     else if t = ''99'' then
       [0x88, 0xb6, 0xb3, 0x10, 0x22, 0xe5, 0x06, 0xac, 0x3f, 0x33, 0xfa, 0x2d, 0x6e, 0x9a, 0x7a, 0xb2]
     else [])"

definition digests_server29363 :: "string \<Rightarrow> 8 word list" where
  "digests_server29363 t =
    (if t = ''0'' then
       [0x03, 0x01, 0x52, 0x34, 0x87, 0xf7, 0x08, 0x05, 0xb6, 0x7d, 0x6b, 0xa5, 0x9c, 0x64, 0x70, 0x6b]
     else if t = ''1'' then
       [0x0f, 0x2d, 0x88, 0x74, 0xae, 0x71, 0x2b, 0xa2, 0x09, 0x01, 0xf4, 0xf2, 0x01, 0x25, 0xea, 0x7b]
     else if t = ''2'' then
       [0x78, 0x61, 0xd1, 0x28, 0xce, 0xbf, 0x5c, 0x6d, 0xd0, 0xa7, 0xc7, 0x27, 0xa9, 0x01, 0xa7, 0x94]
     else [])"

definition digests_server64058 :: "string \<Rightarrow> 8 word list" where
  "digests_server64058 t =
    (if t = ''0'' then
       [0x4b, 0xde, 0x9a, 0x89, 0xce, 0xc6, 0xfa, 0x4d, 0x68, 0xbb, 0x71, 0x9b, 0x69, 0x3e, 0x41, 0x47]
     else if t = ''1'' then
       [0x2c, 0x0d, 0xba, 0x94, 0xa1, 0x86, 0x78, 0x3e, 0x6c, 0x6f, 0x0a, 0x7e, 0xe9, 0x78, 0xc7, 0x3f]
     else if t = ''2'' then
       [0x0f, 0x2d, 0x88, 0x74, 0x44, 0x22, 0x34, 0x24, 0xe7, 0x62, 0xea, 0x41, 0x74, 0x97, 0x37, 0xd4]
     else [])"

definition md5_fixture :: digest_fn where
  "md5_fixture s =
    (if s = ''user:1'' then
       [0xbd, 0xb1, 0xdd, 0x10, 0x56, 0x79, 0x97, 0x9c, 0xa8, 0x2b, 0x28, 0xed, 0xd1, 0xc8, 0xcc, 0xd2]
     else if s = ''user:2'' then
       [0xfb, 0xb7, 0x98, 0xc2, 0x52, 0x41, 0x02, 0x01, 0x2e, 0x7b, 0xd2, 0x2e, 0xef, 0x00, 0xe5, 0x2d]
     else if take 8 s = ''server1#'' then digests_server1 (drop 8 s)
     else if take 8 s = ''server2#'' then digests_server2 (drop 8 s)
     else if take 13 s = ''server147308#'' then digests_server147308 (drop 13 s)
     else if take 12 s = ''server29363#'' then digests_server29363 (drop 12 s)
     else if take 12 s = ''server64058#'' then digests_server64058 (drop 12 s)
     else [])"

definition node_server1 :: Node where
  "node_server1 = \<lparr>id_n = ''server1'', host = ''server1'', grpc_port = 50051, http_port = 9527\<rparr>"

definition node_server2 :: Node where
  "node_server2 = \<lparr>id_n = ''server2'', host = ''server2'', grpc_port = 50052, http_port = 9528\<rparr>"

definition node_server29363 :: Node where
  "node_server29363 =
     \<lparr>id_n = ''server29363'', host = ''server29363'', grpc_port = 50051, http_port = 9527\<rparr>"

definition node_server64058 :: Node where
  "node_server64058 =
     \<lparr>id_n = ''server64058'', host = ''server64058'', grpc_port = 50051, http_port = 9527\<rparr>"

definition node_server147308 :: Node where
  "node_server147308 =
     \<lparr>id_n = ''server147308'', host = ''server147308'', grpc_port = 50051, http_port = 9527\<rparr>"

text \<open>
  A \<^verbatim>\<open>GrpcClient\<close> for the examples: its state is the list of the calls made so far, and
  every call reports failure (as an unreachable peer does).
\<close>

datatype rpc_call = CallGet Node string | CallSet Node string string | CallDelete Node string

definition logging_client :: "rpc_call list GrpcClient" where
  "logging_client =
     \<lparr>client_get = (\<lambda>c node key val. ((False, val), c @ [CallGet node key])),
      client_set = (\<lambda>c node key val. (False, c @ [CallSet node key val])),
      client_del = (\<lambda>c node key. (False, c @ [CallDelete node key]))\<rparr>"

text \<open>
  A cache node as \<^verbatim>\<open>main\<close> constructs it for \<^verbatim>\<open>NODE_ID=server1\<close>, with a client that has made
  no call yet; the \<^verbatim>\<open>Node\<close> under which it registers itself; and the same node after
  \<^verbatim>\<open>setupCluster\<close> has added \<^verbatim>\<open>server2\<close>.
\<close>

definition example_server :: "rpc_call list CacheServer" where
  "example_server = CacheServer_new md5_fixture [] ''server1'' ''0.0.0.0'' 50051 9527"

definition example_self :: Node where
  "example_self = \<lparr>id_n = ''server1'', host = ''0.0.0.0'', grpc_port = 50051, http_port = 9527\<rparr>"

definition example_cluster :: "rpc_call list CacheServer" where
  "example_cluster = CacheServer_addNode md5_fixture example_server node_server2"

section \<open>The ordered map\<close>

lemma map_of_ring_assign: "map_of (ring_assign k v r) = (map_of r)(k \<mapsto> v)"
  by (induction r) (auto simp: fun_upd_twist)

lemma keys_ring_assign: "fst ` set (ring_assign k v r) = insert k (fst ` set r)"
  by (simp add: dom_map_of_conv_image_fst [symmetric] map_of_ring_assign)

lemma sorted_ring_assign:
  "sorted_wrt (<) (map fst r) \<Longrightarrow> sorted_wrt (<) (map fst (ring_assign k v r))"
proof (induction r)
  case Nil
  then show ?case by simp
next
  case (Cons e r)
  obtain k' v' where e: "e = (k', v')" by (cases e)
  have "\<forall>x\<in>fst ` set (ring_assign k v r). k' < x" if "k' < k"
    using that Cons.prems by (auto simp: keys_ring_assign e)
  with Cons show ?case by (auto simp: e)
qed

lemma set_ring_erase: "set (ring_erase k r) \<subseteq> set r"
  by (induction r) (auto split: if_splits)

lemma sorted_ring_erase:
  "sorted_wrt (<) (map fst r) \<Longrightarrow> sorted_wrt (<) (map fst (ring_erase k r))"
proof (induction r)
  case Nil
  then show ?case by simp
next
  case (Cons e r)
  then show ?case using set_ring_erase [of k r] by (cases e) auto
qed

lemma sorted_keys_distinct: "sorted_wrt (<) (map fst r) \<Longrightarrow> distinct (map fst (r :: ('k::linorder \<times> 'v) list))"
  using strict_sorted_iff by blast

lemma map_of_ring_erase:
  "distinct (map fst r) \<Longrightarrow> map_of (ring_erase k r) = (map_of r)(k := None)"
proof (induction r)
  case Nil
  then show ?case by simp
next
  case (Cons e r)
  obtain k' v' where e: "e = (k', v')" by (cases e)
  show ?case
  proof (cases "k = k'")
    case True
    with Cons.prems have "map_of r k = None"
      by (simp add: e map_of_eq_None_iff)
    with True show ?thesis by (auto simp: e)
  next
    case False
    with Cons show ?thesis by (auto simp: e fun_upd_twist)
  qed
qed

lemma ring_lower_bound_None:
  "ring_lower_bound h r = None \<longleftrightarrow> (\<forall>k\<in>fst ` set r. k < h)"
  by (induction r) (auto simp: not_le split: if_splits)

lemma ring_lower_bound_Some:
  "sorted_wrt (<) (map fst r) \<Longrightarrow> ring_lower_bound h r = Some e \<Longrightarrow>
     e \<in> set r \<and> h \<le> fst e \<and> (\<forall>k\<in>fst ` set r. h \<le> k \<longrightarrow> fst e \<le> k)"
proof (induction r)
  case Nil
  then show ?case by simp
next
  case (Cons x r)
  obtain k' v' where x: "x = (k', v')" by (cases x)
  show ?case
  proof (cases "h \<le> k'")
    case True
    with Cons.prems have "e = (k', v')" by (simp add: x)
    with True Cons.prems show ?thesis by (auto simp: x intro: less_imp_le)
  next
    case False
    with Cons.prems have "ring_lower_bound h r = Some e" by (simp add: x)
    with Cons.IH Cons.prems False show ?thesis by (auto simp: x)
  qed
qed

lemma hd_sorted_least:
  "sorted_wrt (<) (map fst r) \<Longrightarrow> (r :: ('k::linorder \<times> 'v) list) \<noteq> [] \<Longrightarrow> hd r \<in> set r \<and> (\<forall>k\<in>fst ` set r. fst (hd r) \<le> k)"
  by (cases r) auto

lemma sorted_alist_eq:
  "sorted_wrt (<) (map fst xs) \<Longrightarrow> sorted_wrt (<) (map fst ys) \<Longrightarrow> map_of xs = map_of ys
     \<Longrightarrow> xs = (ys :: ('k::linorder \<times> 'v) list)"
proof -
  assume sx: "sorted_wrt (<) (map fst xs)" and sy: "sorted_wrt (<) (map fst ys)"
    and eq: "map_of xs = map_of ys"
  have dx: "distinct (map fst xs)" and dy: "distinct (map fst ys)"
    using sx sy by (simp_all add: sorted_keys_distinct)
  have set_eq: "set xs = set ys"
    using dx dy eq by (metis map_of_inject_set)
  have inj: "inj_on fst (set xs \<union> set ys)"
    using dx set_eq by (simp add: distinct_map)
  have "sorted (map fst xs)" "sorted (map fst ys)"
    using sx sy strict_sorted_iff by blast+
  then show ?thesis
    using map_sorted_distinct_set_unique [OF inj _ dx _ dy set_eq] by blast
qed

lemma count_entries:
  assumes "distinct (map fst r)"
  shows "length (filter (\<lambda>e. snd e = v) r) = card {k. map_of r k = Some v}"
proof -
  have d: "distinct r" and inj: "inj_on fst (set r)"
    using assms by (simp_all add: distinct_map)
  have "length (filter (\<lambda>e. snd e = v) r) = card (set (filter (\<lambda>e. snd e = v) r))"
    by (rule distinct_card [symmetric]) (simp add: d)
  also have "\<dots> = card (fst ` set (filter (\<lambda>e. snd e = v) r))"
    using inj by (intro card_image [symmetric]) (auto intro: inj_on_subset)
  also have "fst ` set (filter (\<lambda>e. snd e = v) r) = {k. map_of r k = Some v}"
    using assms by (auto simp: image_iff)
  finally show ?thesis .
qed

section \<open>The loops of addNode and removeNode\<close>

lemma int_interval_step: "i < vn \<Longrightarrow> {i..<vn} = insert i {i + 1..<(vn::int)}"
  by auto

lemma addNode_loop_step:
  "i < vn \<Longrightarrow> addNode_loop md5 vn nid i r =
        addNode_loop md5 vn nid (i + 1) (ring_assign (hash md5 (getVirtualNodeKey nid i)) nid r)"
  by (subst addNode_loop.simps) (simp add: Let_def)

lemma addNode_loop_stop: "\<not> i < vn \<Longrightarrow> addNode_loop md5 vn nid i r = r"
  by (subst addNode_loop.simps) simp

lemma removeNode_loop_step:
  "i < vn \<Longrightarrow> removeNode_loop md5 vn nid i r =
        removeNode_loop md5 vn nid (i + 1) (ring_erase (hash md5 (getVirtualNodeKey nid i)) r)"
  by (subst removeNode_loop.simps) (simp add: Let_def)

lemma removeNode_loop_stop: "\<not> i < vn \<Longrightarrow> removeNode_loop md5 vn nid i r = r"
  by (subst removeNode_loop.simps) simp

lemma addNode_loop_map_of:
  "map_of (addNode_loop md5 vn nid i r) =
     (\<lambda>k. if k \<in> (\<lambda>j. hash md5 (getVirtualNodeKey nid j)) ` {i..<vn} then Some nid
          else map_of r k)"
proof (induction md5 vn nid i r rule: addNode_loop.induct)
  case (1 md5 vn nid i r)
  show ?case
  proof (cases "i < vn")
    case True
    have "map_of (addNode_loop md5 vn nid (i + 1)
             (ring_assign (hash md5 (getVirtualNodeKey nid i)) nid r)) =
          (\<lambda>k. if k \<in> (\<lambda>j. hash md5 (getVirtualNodeKey nid j)) ` {i + 1..<vn} then Some nid
               else map_of (ring_assign (hash md5 (getVirtualNodeKey nid i)) nid r) k)"
      using "1.IH" [OF True refl refl] .
    then show ?thesis
      by (simp add: addNode_loop_step [OF True] int_interval_step [OF True]
          fun_eq_iff map_of_ring_assign)
  next
    case False
    then show ?thesis by (simp add: addNode_loop_stop)
  qed
qed

lemma addNode_loop_sorted:
  "sorted_wrt (<) (map fst r) \<Longrightarrow> sorted_wrt (<) (map fst (addNode_loop md5 vn nid i r))"
proof (induction md5 vn nid i r rule: addNode_loop.induct)
  case (1 md5 vn nid i r)
  show ?case
  proof (cases "i < vn")
    case True
    have "sorted_wrt (<) (map fst (ring_assign (hash md5 (getVirtualNodeKey nid i)) nid r))"
      using "1.prems" by (rule sorted_ring_assign)
    then show ?thesis
      using "1.IH" [OF True refl refl] by (simp add: addNode_loop_step [OF True])
  next
    case False
    then show ?thesis using "1.prems" by (simp add: addNode_loop_stop)
  qed
qed

lemma removeNode_loop_sorted:
  "sorted_wrt (<) (map fst r) \<Longrightarrow> sorted_wrt (<) (map fst (removeNode_loop md5 vn nid i r))"
proof (induction md5 vn nid i r rule: removeNode_loop.induct)
  case (1 md5 vn nid i r)
  show ?case
  proof (cases "i < vn")
    case True
    have "sorted_wrt (<) (map fst (ring_erase (hash md5 (getVirtualNodeKey nid i)) r))"
      using "1.prems" by (rule sorted_ring_erase)
    then show ?thesis
      using "1.IH" [OF True refl refl] by (simp add: removeNode_loop_step [OF True])
  next
    case False
    then show ?thesis using "1.prems" by (simp add: removeNode_loop_stop)
  qed
qed

lemma removeNode_loop_map_of:
  "sorted_wrt (<) (map fst r) \<Longrightarrow>
   map_of (removeNode_loop md5 vn nid i r) =
     (\<lambda>k. if k \<in> (\<lambda>j. hash md5 (getVirtualNodeKey nid j)) ` {i..<vn} then None
          else map_of r k)"
proof (induction md5 vn nid i r rule: removeNode_loop.induct)
  case (1 md5 vn nid i r)
  show ?case
  proof (cases "i < vn")
    case True
    have s': "sorted_wrt (<) (map fst (ring_erase (hash md5 (getVirtualNodeKey nid i)) r))"
      using "1.prems" by (rule sorted_ring_erase)
    have d: "distinct (map fst r)"
      using "1.prems" by (rule sorted_keys_distinct)
    have "map_of (removeNode_loop md5 vn nid (i + 1)
             (ring_erase (hash md5 (getVirtualNodeKey nid i)) r)) =
          (\<lambda>k. if k \<in> (\<lambda>j. hash md5 (getVirtualNodeKey nid j)) ` {i + 1..<vn} then None
               else map_of (ring_erase (hash md5 (getVirtualNodeKey nid i)) r) k)"
      using "1.IH" [OF True refl refl s'] .
    then show ?thesis
      by (simp add: removeNode_loop_step [OF True] int_interval_step [OF True]
          fun_eq_iff map_of_ring_erase [OF d])
  next
    case False
    then show ?thesis by (simp add: removeNode_loop_stop)
  qed
qed

section \<open>The ring invariant\<close>

lemma ring_inv_new: "ring_inv md5 (ConsistentHash_new vn)"
  by (simp add: ring_inv_def ConsistentHash_new_def)

lemma ring_inv_addNode:
  assumes "ring_inv md5 s"
  shows "ring_inv md5 (addNode md5 s node)"
  using assms
  by (auto simp: ring_inv_def addNode_def addNode_loop_sorted addNode_loop_map_of
      split: if_splits)

lemma ring_inv_removeNode:
  assumes "ring_inv md5 s"
  shows "ring_inv md5 (removeNode md5 s x)"
proof (cases "nodes s x")
  case None
  with assms show ?thesis by (simp add: removeNode_def)
next
  case (Some n)
  have srt: "sorted_wrt (<) (map fst (ring s))"
    using assms by (simp add: ring_inv_def)
  show ?thesis
    using assms Some
    by (auto simp: ring_inv_def removeNode_def removeNode_loop_sorted
        removeNode_loop_map_of [OF srt] split: if_splits)
qed

lemma ring_inv_apply_op: "ring_inv md5 s \<Longrightarrow> ring_inv md5 (apply_op md5 s w)"
  by (cases w) (simp_all add: ring_inv_addNode ring_inv_removeNode)

lemma ring_inv_foldl: "ring_inv md5 s \<Longrightarrow> ring_inv md5 (foldl (apply_op md5) s ops)"
  by (induction ops arbitrary: s) (simp_all add: ring_inv_apply_op)

lemma ring_inv_run_ops: "ring_inv md5 (run_ops md5 vn ops)"
  by (simp add: run_ops_def ring_inv_foldl ring_inv_new)

lemma run_ops_snoc: "run_ops md5 vn (ops @ [w]) = apply_op md5 (run_ops md5 vn ops) w"
  by (simp add: run_ops_def)

lemma virtual_nodes_apply_op: "virtual_nodes (apply_op md5 s w) = virtual_nodes s"
  by (cases w) (simp_all add: addNode_def removeNode_def split: option.splits)

lemma virtual_nodes_foldl: "virtual_nodes (foldl (apply_op md5) s ops) = virtual_nodes s"
  by (induction ops arbitrary: s) (simp_all add: virtual_nodes_apply_op)

lemma virtual_nodes_run_ops: "virtual_nodes (run_ops md5 vn ops) = vn"
  by (simp add: run_ops_def virtual_nodes_foldl ConsistentHash_new_def)

lemma ring_inv_registered:
  assumes "ring_inv md5 s" and "(k, v) \<in> set (ring s)"
  shows "\<exists>n. nodes s v = Some n \<and> id_n n = v"
proof -
  have "distinct (map fst (ring s))"
    using assms(1) by (simp add: ring_inv_def sorted_keys_distinct)
  with assms(2) have "map_of (ring s) k = Some v" by simp
  with assms(1) show ?thesis unfolding ring_inv_def by (meson domD)
qed

section \<open>What getNode returns\<close>

lemma getNode_empty: "ring s = [] \<Longrightarrow> getNode md5 s key = Inl NoNodesAvailable"
  by (simp add: getNode_def)

lemma getNode_nonempty:
  assumes inv: "ring_inv md5 s" and ne: "ring s \<noteq> []"
  shows "\<exists>k nid n. (k, nid) \<in> set (ring s) \<and> nodes s nid = Some n \<and> id_n n = nid \<and>
           getNode md5 s key = Inr n \<and>
           k = (if \<exists>k'\<in>fst ` set (ring s). hash md5 key \<le> k'
                then Min {k' \<in> fst ` set (ring s). hash md5 key \<le> k'}
                else Min (fst ` set (ring s)))"
proof -
  let ?h = "hash md5 key"
  let ?K = "fst ` set (ring s)"
  have srt: "sorted_wrt (<) (map fst (ring s))"
    using inv by (simp add: ring_inv_def)
  have dist: "distinct (map fst (ring s))"
    using srt by (rule sorted_keys_distinct)
  have reg: "\<exists>n. nodes s v = Some n \<and> id_n n = v" if "(k, v) \<in> set (ring s)" for k v
  proof -
    from that dist have "map_of (ring s) k = Some v" by simp
    with inv show ?thesis unfolding ring_inv_def by (meson domD)
  qed
  show ?thesis
  proof (cases "ring_lower_bound ?h (ring s)")
    case None
    then have small: "\<forall>k\<in>?K. k < ?h"
      by (simp add: ring_lower_bound_None)
    obtain k v where hd: "hd (ring s) = (k, v)" by (cases "hd (ring s)")
    from hd_sorted_least [OF srt ne] hd
    have mem: "(k, v) \<in> set (ring s)" and least: "\<forall>k'\<in>?K. k \<le> k'" by auto
    from reg [OF mem] obtain n where n: "nodes s v = Some n" "id_n n = v" by blast
    have "Min ?K = k"
      using mem least by (intro Min_eqI) force+
    moreover have "\<not> (\<exists>k'\<in>?K. ?h \<le> k')"
      using small by (auto simp: not_le)
    moreover have "getNode md5 s key = Inr n"
      using ne None hd n by (simp add: getNode_def)
    ultimately show ?thesis using mem n by auto
  next
    case (Some e)
    obtain k v where e: "e = (k, v)" by (cases e)
    from ring_lower_bound_Some [OF srt Some] e
    have mem: "(k, v) \<in> set (ring s)" and ge: "?h \<le> k"
      and least: "\<forall>k'\<in>?K. ?h \<le> k' \<longrightarrow> k \<le> k'" by auto
    from reg [OF mem] obtain n where n: "nodes s v = Some n" "id_n n = v" by blast
    have "Min {k' \<in> ?K. ?h \<le> k'} = k"
      using mem ge least by (intro Min_eqI) force+
    moreover have "\<exists>k'\<in>?K. ?h \<le> k'"
      using mem ge by force
    moreover have "getNode md5 s key = Inr n"
      using ne Some e n by (simp add: getNode_def)
    ultimately show ?thesis using mem n by auto
  qed
qed

lemma getNode_at_position:
  assumes inv: "ring_inv md5 s"
    and at: "map_of (ring s) (hash md5 key) = Some v"
    and reg: "nodes s v = Some n"
  shows "getNode md5 s key = Inr n"
proof -
  let ?h = "hash md5 key"
  have srt: "sorted_wrt (<) (map fst (ring s))"
    using inv by (simp add: ring_inv_def)
  have dist: "distinct (map fst (ring s))"
    using srt by (rule sorted_keys_distinct)
  have mem: "(?h, v) \<in> set (ring s)"
    using at by (rule map_of_SomeD)
  then have ne: "ring s \<noteq> []" by auto
  have "ring_lower_bound ?h (ring s) \<noteq> None"
  proof
    assume "ring_lower_bound ?h (ring s) = None"
    then have "\<forall>k\<in>fst ` set (ring s). k < ?h"
      by (simp add: ring_lower_bound_None)
    with mem have "?h < ?h" by force
    then show False by simp
  qed
  then obtain e where e: "ring_lower_bound ?h (ring s) = Some e" by auto
  from ring_lower_bound_Some [OF srt e] mem
  have "e \<in> set (ring s)" "?h \<le> fst e" "fst e \<le> ?h" by force+
  then have "(?h, snd e) \<in> set (ring s)" by (metis antisym prod.collapse)
  with dist at have "snd e = v" by simp
  with ne e reg show ?thesis by (simp add: getNode_def)
qed

lemma getNode_just_added:
  assumes inv: "ring_inv md5 s" and j: "0 \<le> j" "j < virtual_nodes s"
  shows "getNode md5 (addNode md5 s node) (getVirtualNodeKey (id_n node) j) = Inr node"
proof (rule getNode_at_position)
  show "ring_inv md5 (addNode md5 s node)"
    using inv by (rule ring_inv_addNode)
  show "map_of (ring (addNode md5 s node)) (hash md5 (getVirtualNodeKey (id_n node) j))
      = Some (id_n node)"
    using j by (simp add: addNode_def addNode_loop_map_of)
  show "nodes (addNode md5 s node) (id_n node) = Some node"
    by (simp add: addNode_def)
qed

lemma getNode_single_node:
  assumes "0 < vn"
  shows "getNode md5 (addNode md5 (ConsistentHash_new vn) node) key = Inr node"
proof -
  let ?s = "addNode md5 (ConsistentHash_new vn) node"
  have inv: "ring_inv md5 ?s"
    by (intro ring_inv_addNode ring_inv_new)
  have "map_of (ring ?s) (hash md5 (getVirtualNodeKey (id_n node) 0)) = Some (id_n node)"
    using assms by (simp add: addNode_def addNode_loop_map_of ConsistentHash_new_def)
  then have ne: "ring ?s \<noteq> []" by auto
  from getNode_nonempty [OF inv ne, of key]
  obtain nid n where "nodes ?s nid = Some n" "getNode md5 ?s key = Inr n" by blast
  then show ?thesis
    by (auto simp: addNode_def ConsistentHash_new_def split: if_splits)
qed

section \<open>Adding a node and removing it again\<close>

lemma addNode_then_removeNode:
  assumes srt: "sorted_wrt (<) (map fst (ring s))"
    and fresh: "nodes s (id_n node) = None"
    and free: "\<forall>j\<in>{0..<virtual_nodes s}. hash md5 (getVirtualNodeKey (id_n node) j) \<notin> fst ` set (ring s)"
  shows "removeNode md5 (addNode md5 s node) (id_n node) = s"
proof -
  let ?vn = "virtual_nodes s"
  let ?r1 = "addNode_loop md5 ?vn (id_n node) 0 (ring s)"
  let ?r2 = "removeNode_loop md5 ?vn (id_n node) 0 ?r1"
  have s1: "sorted_wrt (<) (map fst ?r1)"
    using srt by (rule addNode_loop_sorted)
  have s2: "sorted_wrt (<) (map fst ?r2)"
    using s1 by (rule removeNode_loop_sorted)
  have none: "map_of (ring s) k = None"
    if "k \<in> (\<lambda>j. hash md5 (getVirtualNodeKey (id_n node) j)) ` {0..<?vn}" for k
    using that free by (auto simp: map_of_eq_None_iff)
  have "map_of ?r2 = map_of (ring s)"
    by (auto simp: fun_eq_iff removeNode_loop_map_of [OF s1] addNode_loop_map_of none)
  then have ring_eq: "?r2 = ring s"
    using s2 srt by (intro sorted_alist_eq)
  have nodes_eq: "(nodes s)(id_n node := None) = nodes s"
    using fresh by (simp add: fun_upd_idem)
  show ?thesis
    by (simp add: removeNode_def addNode_def ring_eq nodes_eq)
qed

section \<open>Colliding and distinct ring positions\<close>

lemma collision_fewer_entries:
  assumes "0 \<le> i" "i < j" "j < vn"
    and "hash md5 (getVirtualNodeKey (id_n node) i) = hash md5 (getVirtualNodeKey (id_n node) j)"
  shows "length (ring (addNode md5 (ConsistentHash_new vn) node)) < nat vn"
proof -
  let ?pos = "\<lambda>j. hash md5 (getVirtualNodeKey (id_n node) j)"
  let ?r = "addNode_loop md5 vn (id_n node) 0 []"
  have r: "ring (addNode md5 (ConsistentHash_new vn) node) = ?r"
    by (simp add: addNode_def ConsistentHash_new_def)
  have "sorted_wrt (<) (map fst ?r)"
    by (rule addNode_loop_sorted) simp
  then have "distinct (map fst ?r)"
    by (rule sorted_keys_distinct)
  then have "length ?r = card (fst ` set ?r)"
    by (metis distinct_card length_map set_map)
  also have "fst ` set ?r = dom (map_of ?r)"
    by (simp add: dom_map_of_conv_image_fst)
  also have "\<dots> = ?pos ` {0..<vn}"
    by (auto simp: addNode_loop_map_of dom_def)
  also have "\<dots> = ?pos ` ({0..<vn} - {j})"
  proof -
    have "i \<in> {0..<vn} - {j}" using assms by auto
    then have "?pos j \<in> ?pos ` ({0..<vn} - {j})"
      using assms(4) by (metis imageI)
    then show ?thesis by auto
  qed
  also have "card \<dots> \<le> card ({0..<vn} - {j})"
    by (rule card_image_le) simp
  also have "\<dots> < nat vn"
    using assms by (simp add: card_Diff_singleton_if)
  finally show ?thesis by (simp add: r)
qed

lemma positions_kept:
  assumes inj: "inj_on (\<lambda>(v, j). hash md5 (getVirtualNodeKey v j)) (I \<times> {0..<vn})"
    and ids: "\<forall>n. AddNode n \<in> set ops \<longrightarrow> id_n n \<in> I"
  shows "dom (nodes (run_ops md5 vn ops)) \<subseteq> I \<and>
         (\<forall>v\<in>dom (nodes (run_ops md5 vn ops)). \<forall>j\<in>{0..<vn}.
            map_of (ring (run_ops md5 vn ops)) (hash md5 (getVirtualNodeKey v j)) = Some v)"
  using ids
proof (induction ops rule: rev_induct)
  case Nil
  then show ?case by (simp add: run_ops_def ConsistentHash_new_def)
next
  case (snoc w ops)
  let ?s = "run_ops md5 vn ops"
  let ?pos = "\<lambda>v j. hash md5 (getVirtualNodeKey v j)"
  have IH: "dom (nodes ?s) \<subseteq> I"
    "\<And>v j. v \<in> dom (nodes ?s) \<Longrightarrow> j \<in> {0..<vn} \<Longrightarrow> map_of (ring ?s) (?pos v j) = Some v"
    using snoc by auto
  have vn: "virtual_nodes ?s = vn" by (rule virtual_nodes_run_ops)
  have srt: "sorted_wrt (<) (map fst (ring ?s))"
    using ring_inv_run_ops [of md5 vn ops] by (simp add: ring_inv_def)
  have apart: "?pos v j \<notin> ?pos u ` {0..<vn}"
    if "v \<in> I" "u \<in> I" "v \<noteq> u" "j \<in> {0..<vn}" for v u j
  proof
    assume "?pos v j \<in> ?pos u ` {0..<vn}"
    then obtain j' where j': "j' \<in> {0..<vn}" "?pos v j = ?pos u j'" by auto
    have "(v, j) \<in> I \<times> {0..<vn}" "(u, j') \<in> I \<times> {0..<vn}"
      using that j' by auto
    with inj j'(2) have "(v, j) = (u, j')"
      unfolding inj_on_def by (metis (mono_tags, lifting) case_prod_conv)
    with that show False by simp
  qed
  show ?case
  proof (cases w)
    case (AddNode n)
    have nI: "id_n n \<in> I" using snoc.prems AddNode by simp
    have s': "run_ops md5 vn (ops @ [w]) = addNode md5 ?s n"
      by (simp add: run_ops_def AddNode)
    have dom': "dom (nodes (addNode md5 ?s n)) = insert (id_n n) (dom (nodes ?s))"
      by (simp add: addNode_def)
    have map': "map_of (ring (addNode md5 ?s n)) =
        (\<lambda>k. if k \<in> ?pos (id_n n) ` {0..<vn} then Some (id_n n) else map_of (ring ?s) k)"
      by (simp add: addNode_def addNode_loop_map_of vn)
    have "map_of (ring (addNode md5 ?s n)) (?pos v j) = Some v"
      if "v \<in> insert (id_n n) (dom (nodes ?s))" "j \<in> {0..<vn}" for v j
    proof (cases "v = id_n n")
      case True
      with that show ?thesis by (simp add: map')
    next
      case False
      with that have v: "v \<in> dom (nodes ?s)" by simp
      with IH(1) have "v \<in> I" by auto
      from apart [OF this nI False that(2)] IH(2) [OF v that(2)]
      show ?thesis by (simp add: map')
    qed
    with IH(1) nI show ?thesis
      unfolding s' dom' by auto
  next
    case (RemoveNode x)
    have s': "run_ops md5 vn (ops @ [w]) = removeNode md5 ?s x"
      by (simp add: run_ops_def RemoveNode)
    show ?thesis
    proof (cases "nodes ?s x")
      case None
      then have "removeNode md5 ?s x = ?s" by (simp add: removeNode_def)
      with IH show ?thesis unfolding s' by auto
    next
      case (Some n)
      then have xI: "x \<in> I" using IH(1) by auto
      have dom': "dom (nodes (removeNode md5 ?s x)) = dom (nodes ?s) - {x}"
        using Some by (simp add: removeNode_def)
      have map': "map_of (ring (removeNode md5 ?s x)) =
          (\<lambda>k. if k \<in> ?pos x ` {0..<vn} then None else map_of (ring ?s) k)"
        using Some by (simp add: removeNode_def removeNode_loop_map_of [OF srt] vn)
      have "map_of (ring (removeNode md5 ?s x)) (?pos v j) = Some v"
        if "v \<in> dom (nodes ?s) - {x}" "j \<in> {0..<vn}" for v j
      proof -
        from that have v: "v \<in> dom (nodes ?s)" and ne: "v \<noteq> x" by auto
        with IH(1) have "v \<in> I" by auto
        from apart [OF this xI ne that(2)] IH(2) [OF v that(2)]
        show ?thesis by (simp add: map')
      qed
      with IH(1) show ?thesis
        unfolding s' dom' by auto
    qed
  qed
qed

section \<open>Examples\<close>

text \<open>Rules that evaluate the model on concrete data.\<close>

lemma digits_small: "n < 10 \<Longrightarrow> digits n = [digit_char n]"
  by (subst digits.simps) simp

lemma digits_large: "\<not> n < 10 \<Longrightarrow> digits n = digits (n div 10) @ [digit_char (n mod 10)]"
  by (subst digits.simps) simp

lemmas ring_eval =
  run_ops_def ConsistentHash_new_def addNode_def removeNode_def
  addNode_loop_step addNode_loop_stop removeNode_loop_step removeNode_loop_stop
  getVirtualNodeKey_def to_string_def digits_small digits_large digit_char_def hash_def
  md5_fixture_def

lemma example_state:
  "run_ops md5_fixture 3 [AddNode node_server1, AddNode node_server2] =
     \<lparr>virtual_nodes = 3,
      ring = [(0x33330d14, ''server1''), (0x92c3e7ef, ''server1''), (0xb39032c7, ''server1''),
              (0xc6933bd8, ''server2''), (0xc8811bee, ''server2''), (0xfb253f38, ''server2'')],
      nodes = [''server1'' \<mapsto> node_server1, ''server2'' \<mapsto> node_server2]\<rparr>"
  by (simp add: ring_eval digests_server1_def digests_server2_def node_server1_def
      node_server2_def)

lemma example_hashes:
  "hash md5_fixture ''user:1'' = 0xbdb1dd10" "hash md5_fixture ''user:2'' = 0xfbb798c2"
  by (simp_all add: hash_def md5_fixture_def)

lemma example_single:
  "run_ops md5_fixture 3 [AddNode node_server1] =
     \<lparr>virtual_nodes = 3,
      ring = [(0x33330d14, ''server1''), (0x92c3e7ef, ''server1''), (0xb39032c7, ''server1'')],
      nodes = [''server1'' \<mapsto> node_server1]\<rparr>"
  by (simp add: ring_eval digests_server1_def node_server1_def)

lemma example_collide:
  "run_ops md5_fixture 3 [AddNode node_server29363, AddNode node_server1] =
     \<lparr>virtual_nodes = 3,
      ring = [(0x03015234, ''server29363''), (0x0f2d8874, ''server29363''),
              (0x33330d14, ''server1''), (0x7861d128, ''server29363''),
              (0x92c3e7ef, ''server1''), (0xb39032c7, ''server1'')],
      nodes = [''server29363'' \<mapsto> node_server29363, ''server1'' \<mapsto> node_server1]\<rparr>"
  by (simp add: ring_eval digests_server1_def digests_server29363_def node_server1_def
      node_server29363_def)

lemma example_hashes2:
  "hash md5_fixture ''server29363#1'' = 0x0f2d8874"
  by (simp add: hash_def md5_fixture_def digests_server29363_def)

lemma example_server_fields:
  "node_id example_server = ''server1''"
  "local_cache example_server = Map.empty"
  "grpc_client example_server = []"
  "hash_ring example_server = addNode md5_fixture (ConsistentHash_new 100) example_self"
  by (simp_all add: example_server_def CacheServer_new_def example_self_def)

lemma example_cluster_fields:
  "node_id example_cluster = ''server1''"
  "local_cache example_cluster = Map.empty"
  "grpc_client example_cluster = []"
  "hash_ring example_cluster = addNode md5_fixture (hash_ring example_server) node_server2"
  by (simp_all add: example_cluster_def CacheServer_addNode_def example_server_fields)

lemma example_server_owner:
  "getNode md5_fixture (hash_ring example_server) key = Inr example_self"
  by (simp add: example_server_fields getNode_single_node)

lemma example_cluster_owner:
  "getNode md5_fixture (hash_ring example_cluster) ''server2#0'' = Inr node_server2"
proof -
  have inv: "ring_inv md5_fixture (hash_ring example_server)"
    unfolding example_server_fields by (intro ring_inv_addNode ring_inv_new)
  have vn: "virtual_nodes (hash_ring example_server) = 100"
    by (simp add: example_server_fields addNode_def ConsistentHash_new_def)
  have key: "getVirtualNodeKey (id_n node_server2) 0 = ''server2#0''"
    by (simp add: node_server2_def getVirtualNodeKey_def to_string_def digits_small
        digit_char_def)
  have "getNode md5_fixture (addNode md5_fixture (hash_ring example_server) node_server2)
      (getVirtualNodeKey (id_n node_server2) 0) = Inr node_server2"
    by (rule getNode_just_added [OF inv]) (simp_all add: vn)
  then show ?thesis
    by (simp add: key example_cluster_fields)
qed

lemma example_emptied:
  "hash_ring (CacheServer_removeNode md5_fixture example_server ''server1'') =
     ConsistentHash_new 100"
proof -
  have "removeNode md5_fixture (addNode md5_fixture (ConsistentHash_new 100) example_self)
      (id_n example_self) = ConsistentHash_new 100"
    by (rule addNode_then_removeNode) (simp_all add: ConsistentHash_new_def)
  then show ?thesis
    by (simp add: CacheServer_removeNode_def example_server_fields example_self_def)
qed

section \<open>The claims\<close>

text \<open>
  Claim C1. In every ring state (whatever the sequence of \<^verbatim>\<open>addNode\<close> and \<^verbatim>\<open>removeNode\<close> calls
  that led to it), the ring holds at most one entry per hash value; on the empty ring
  \<^verbatim>\<open>getNode(key)\<close> fails with the no-nodes-available error; on a non-empty ring it returns
  the node registered under the identifier stored at the smallest ring hash value that is
  at least \<open>hash(key)\<close>, or, when no ring hash value is that large, at the smallest ring
  hash value.
\<close>

theorem getNode_clockwise_successor:
  "let s = run_ops md5 vn ops; h = hash md5 key; K = fst ` set (ring s) in
     distinct (map fst (ring s)) \<and>
     (ring s = [] \<longrightarrow> getNode md5 s key = Inl NoNodesAvailable) \<and>
     (ring s \<noteq> [] \<longrightarrow>
        (\<exists>nid n. (if \<exists>k\<in>K. h \<le> k then Min {k \<in> K. h \<le> k} else Min K, nid) \<in> set (ring s) \<and>
                 nodes s nid = Some n \<and> getNode md5 s key = Inr n))"
proof -
  let ?s = "run_ops md5 vn ops"
  have inv: "ring_inv md5 ?s" by (rule ring_inv_run_ops)
  then have "distinct (map fst (ring ?s))"
    by (simp add: ring_inv_def sorted_keys_distinct)
  moreover have "ring ?s \<noteq> [] \<Longrightarrow>
      \<exists>nid n. (if \<exists>k\<in>fst ` set (ring ?s). hash md5 key \<le> k
                then Min {k \<in> fst ` set (ring ?s). hash md5 key \<le> k}
                else Min (fst ` set (ring ?s)), nid) \<in> set (ring ?s) \<and>
               nodes ?s nid = Some n \<and> getNode md5 ?s key = Inr n"
    using getNode_nonempty [OF inv, of key] by blast
  ultimately show ?thesis
    by (simp add: Let_def getNode_empty)
qed

theorem getNode_clockwise_successor_witness:
  "getNode md5_fixture (run_ops md5_fixture 3 []) ''user:1'' = Inl NoNodesAvailable \<and>
   ring (run_ops md5_fixture 3 [AddNode node_server1, AddNode node_server2]) \<noteq> [] \<and>
   getNode md5_fixture (run_ops md5_fixture 3 [AddNode node_server1, AddNode node_server2])
     ''user:1'' = Inr node_server2 \<and>
   getNode md5_fixture (run_ops md5_fixture 3 [AddNode node_server1, AddNode node_server2])
     ''user:2'' = Inr node_server1"
proof -
  let ?S = "run_ops md5_fixture 3 [AddNode node_server1, AddNode node_server2]"
  let ?K = "{0x33330d14, 0x92c3e7ef, 0xb39032c7, 0xc6933bd8, 0xc8811bee, 0xfb253f38 :: 32 word}"
  have e: "ring (run_ops md5_fixture 3 []) = []"
    by (simp add: run_ops_def ConsistentHash_new_def)
  have empty: "getNode md5_fixture (run_ops md5_fixture 3 []) ''user:1'' = Inl NoNodesAvailable"
    using getNode_clockwise_successor [of md5_fixture 3 "[]" "''user:1''"] e
    by (simp add: Let_def)
  have ne: "ring ?S \<noteq> []"
    by (simp add: example_state)
  have K: "fst ` set (ring ?S) = ?K"
    by (simp add: example_state)
  have above1: "{k \<in> ?K. 0xbdb1dd10 \<le> k} = {0xc6933bd8, 0xc8811bee, 0xfb253f38}"
    by auto
  have cond1: "\<exists>k\<in>?K. 0xbdb1dd10 \<le> k"
    by simp
  have min1: "Min {0xc6933bd8, 0xc8811bee, 0xfb253f38 :: 32 word} = 0xc6933bd8"
    by simp
  have cond2: "\<not> (\<exists>k\<in>?K. 0xfbb798c2 \<le> k)"
    by simp
  have min2: "Min ?K = 0x33330d14"
    by simp
  note first = getNode_clockwise_successor
    [of md5_fixture 3 "[AddNode node_server1, AddNode node_server2]" "''user:1''",
      unfolded Let_def K example_hashes above1 if_P [OF cond1] min1]
  note second = getNode_clockwise_successor
    [of md5_fixture 3 "[AddNode node_server1, AddNode node_server2]" "''user:2''",
      unfolded Let_def K example_hashes if_not_P [OF cond2] min2]
  from first ne obtain nid n where "(0xc6933bd8, nid) \<in> set (ring ?S)"
    "nodes ?S nid = Some n" "getNode md5_fixture ?S ''user:1'' = Inr n"
    by blast
  then have one: "getNode md5_fixture ?S ''user:1'' = Inr node_server2"
    by (auto simp: example_state)
  from second ne obtain nid' n' where "(0x33330d14, nid') \<in> set (ring ?S)"
    "nodes ?S nid' = Some n'" "getNode md5_fixture ?S ''user:2'' = Inr n'"
    by blast
  then have two: "getNode md5_fixture ?S ''user:2'' = Inr node_server1"
    by (auto simp: example_state)
  from empty ne one two show ?thesis by simp
qed

text \<open>
  Claim C2 as stated fails: the labels \<^verbatim>\<open>server147308#28\<close> and \<^verbatim>\<open>server147308#87\<close> of one
  and the same node have MD5 digests that start with the same four bytes, so a ring of 100
  virtual nodes per node that holds this node alone has fewer than 100 entries for it.
\<close>

theorem virtual_node_count_counterexample:
  "hasNode (run_ops md5_fixture 100 [AddNode node_server147308]) ''server147308'' \<and>
   virtual_nodes (run_ops md5_fixture 100 [AddNode node_server147308]) = 100 \<and>
   length (filter (\<lambda>e. snd e = ''server147308'')
             (ring (run_ops md5_fixture 100 [AddNode node_server147308]))) < 100"
proof -
  have s: "run_ops md5_fixture 100 [AddNode node_server147308] =
      addNode md5_fixture (ConsistentHash_new 100) node_server147308"
    by (simp add: run_ops_def)
  have h: "hash md5_fixture (getVirtualNodeKey (id_n node_server147308) 28) = 0xa7308efc"
    "hash md5_fixture (getVirtualNodeKey (id_n node_server147308) 87) = 0xa7308efc"
    by (simp_all add: node_server147308_def getVirtualNodeKey_def to_string_def digits_small
        digits_large digit_char_def hash_def md5_fixture_def digests_server147308_def)
  have "length (ring (addNode md5_fixture (ConsistentHash_new 100) node_server147308)) < nat 100"
    by (rule collision_fewer_entries [where i = 28 and j = 87]) (simp_all add: h)
  then have "length (filter (\<lambda>e. snd e = ''server147308'')
       (ring (addNode md5_fixture (ConsistentHash_new 100) node_server147308))) < 100"
    using le_less_trans [OF length_filter_le] by fastforce
  moreover have "hasNode (addNode md5_fixture (ConsistentHash_new 100) node_server147308)
      ''server147308''"
    by (simp add: hasNode_def addNode_def node_server147308_def)
  moreover have "virtual_nodes (addNode md5_fixture (ConsistentHash_new 100) node_server147308)
      = 100"
    by (simp add: addNode_def ConsistentHash_new_def)
  ultimately show ?thesis
    unfolding s by simp
qed

text \<open>
  Claim C2, amended. In every ring state reachable from the empty ring by \<^verbatim>\<open>addNode\<close> and
  \<^verbatim>\<open>removeNode\<close>, with a virtual-node count that is not negative, every registered identifier
  has exactly \<^verbatim>\<open>virtual_nodes_\<close> ring entries that store it, provided no two virtual-node
  labels of the nodes added hash to the same ring position, be they labels of different
  nodes or of the same node.
\<close>

theorem virtual_node_count:
  assumes "0 \<le> vn"
    and "inj_on (\<lambda>(v, j). hash md5 (getVirtualNodeKey v j))
           ({id_n n |n. AddNode n \<in> set ops} \<times> {0..<vn})"
    and "hasNode (run_ops md5 vn ops) nid"
  shows "int (length (filter (\<lambda>e. snd e = nid) (ring (run_ops md5 vn ops)))) = vn"
proof -
  let ?s = "run_ops md5 vn ops"
  let ?I = "{id_n n |n. AddNode n \<in> set ops}"
  let ?pos = "\<lambda>j. hash md5 (getVirtualNodeKey nid j)"
  have inv: "ring_inv md5 ?s" by (rule ring_inv_run_ops)
  have vn: "virtual_nodes ?s = vn" by (rule virtual_nodes_run_ops)
  have dist: "distinct (map fst (ring ?s))"
    using inv by (simp add: ring_inv_def sorted_keys_distinct)
  have kept: "dom (nodes ?s) \<subseteq> ?I"
    "\<forall>v\<in>dom (nodes ?s). \<forall>j\<in>{0..<vn}.
        map_of (ring ?s) (hash md5 (getVirtualNodeKey v j)) = Some v"
    using positions_kept [OF assms(2), of ops] by auto
  have reg: "nid \<in> dom (nodes ?s)"
    using assms(3) by (auto simp: hasNode_def)
  have "{k. map_of (ring ?s) k = Some nid} = ?pos ` {0..<vn}"
  proof (intro equalityI subsetI)
    fix k assume "k \<in> {k. map_of (ring ?s) k = Some nid}"
    with inv vn show "k \<in> ?pos ` {0..<vn}" by (auto simp: ring_inv_def)
  next
    fix k assume "k \<in> ?pos ` {0..<vn}"
    with kept(2) reg show "k \<in> {k. map_of (ring ?s) k = Some nid}" by auto
  qed
  moreover have "inj_on ?pos {0..<vn}"
  proof (rule inj_onI)
    fix i j assume ij: "i \<in> {0..<vn}" "j \<in> {0..<vn}" "?pos i = ?pos j"
    have "(nid, i) \<in> ?I \<times> {0..<vn}" "(nid, j) \<in> ?I \<times> {0..<vn}"
      using reg kept(1) ij by auto
    with assms(2) ij(3) have "(nid, i) = (nid, j)"
      unfolding inj_on_def by (metis (mono_tags, lifting) case_prod_conv)
    then show "i = j" by simp
  qed
  ultimately have "card {k. map_of (ring ?s) k = Some nid} = card {0..<vn}"
    by (simp add: card_image)
  then show ?thesis
    using assms(1) by (simp add: count_entries [OF dist])
qed

theorem virtual_node_count_witness:
  "hasNode (run_ops md5_fixture 3 [AddNode node_server1, AddNode node_server2]) ''server2'' \<and>
   int (length (filter (\<lambda>e. snd e = ''server2'')
                  (ring (run_ops md5_fixture 3 [AddNode node_server1, AddNode node_server2]))))
     = 3"
proof -
  let ?f = "\<lambda>(v, j). hash md5_fixture (getVirtualNodeKey v j)"
  let ?xs = "[(''server1'', 0::int), (''server1'', 1), (''server1'', 2),
              (''server2'', 0), (''server2'', 1), (''server2'', 2)]"
  have p: "hash md5_fixture (getVirtualNodeKey ''server1'' 0) = 0x33330d14"
    "hash md5_fixture (getVirtualNodeKey ''server1'' 1) = 0x92c3e7ef"
    "hash md5_fixture (getVirtualNodeKey ''server1'' 2) = 0xb39032c7"
    "hash md5_fixture (getVirtualNodeKey ''server2'' 0) = 0xc6933bd8"
    "hash md5_fixture (getVirtualNodeKey ''server2'' 1) = 0xc8811bee"
    "hash md5_fixture (getVirtualNodeKey ''server2'' 2) = 0xfb253f38"
    by (simp_all add: getVirtualNodeKey_def to_string_def digits_small digits_large
        digit_char_def hash_def md5_fixture_def digests_server1_def digests_server2_def)
  have "distinct (map ?f ?xs)"
    by (simp add: p)
  then have "inj_on ?f (set ?xs)"
    by (simp only: distinct_map)
  moreover have
    "{id_n n |n. AddNode n \<in> set [AddNode node_server1, AddNode node_server2]} \<times> {0..<3}
       \<subseteq> set ?xs"
    by (auto simp: node_server1_def node_server2_def)
  ultimately have inj: "inj_on ?f
      ({id_n n |n. AddNode n \<in> set [AddNode node_server1, AddNode node_server2]} \<times> {0..<3})"
    by (rule inj_on_subset)
  have reg: "hasNode (run_ops md5_fixture 3 [AddNode node_server1, AddNode node_server2])
      ''server2''"
    by (simp add: example_state hasNode_def)
  have nonneg: "(0::int) \<le> 3" by simp
  from virtual_node_count [OF nonneg inj reg] reg show ?thesis by simp
qed

text \<open>
  Claim C3 as stated (for every ring state and every node) fails: (a) when the node added is already registered, removing it
  afterwards leaves a ring without it; (b) when a label of the node added hashes to a
  position that another node holds, the add overwrites that entry and the remove erases it.
\<close>

theorem add_remove_restores_counterexample:
  "getNode md5_fixture (run_ops md5_fixture 3 [AddNode node_server1]) ''user:1''
     = Inr node_server1 \<and>
   getNode md5_fixture
     (removeNode md5_fixture
        (addNode md5_fixture (run_ops md5_fixture 3 [AddNode node_server1]) node_server1)
        (id_n node_server1)) ''user:1''
     = Inl NoNodesAvailable \<and>
   \<not> hasNode (run_ops md5_fixture 3 [AddNode node_server29363, AddNode node_server1])
       (id_n node_server64058) \<and>
   getNode md5_fixture (run_ops md5_fixture 3 [AddNode node_server29363, AddNode node_server1])
     ''server29363#1'' = Inr node_server29363 \<and>
   getNode md5_fixture
     (removeNode md5_fixture
        (addNode md5_fixture
           (run_ops md5_fixture 3 [AddNode node_server29363, AddNode node_server1])
           node_server64058)
        (id_n node_server64058)) ''server29363#1''
     = Inr node_server1"
  apply (simp only: example_single example_collide)
  apply (intro conjI)
      apply (simp add: getNode_def example_hashes)
     apply (simp add: getNode_def ring_eval digests_server1_def node_server1_def)
    apply (simp add: hasNode_def node_server64058_def)
   apply (simp add: getNode_def example_hashes2)
  apply (simp add: getNode_def ring_eval digests_server64058_def node_server64058_def example_hashes2 digests_server29363_def)
  done

text \<open>
  Claim C3, amended. In every ring state, for every node that is not registered and none of
  whose virtual-node labels hashes to a position already on the ring, \<^verbatim>\<open>addNode\<close> followed
  by \<^verbatim>\<open>removeNode\<close> of its identifier gives back the very same ring and registry, so
  \<^verbatim>\<open>getNode\<close> answers every key as it did before the add.
\<close>

theorem add_remove_restores:
  assumes "\<not> hasNode (run_ops md5 vn ops) (id_n node)"
    and "\<forall>j\<in>{0..<vn}. hash md5 (getVirtualNodeKey (id_n node) j)
            \<notin> fst ` set (ring (run_ops md5 vn ops))"
  shows "removeNode md5 (addNode md5 (run_ops md5 vn ops) node) (id_n node) = run_ops md5 vn ops \<and>
         getNode md5 (removeNode md5 (addNode md5 (run_ops md5 vn ops) node) (id_n node)) key
           = getNode md5 (run_ops md5 vn ops) key"
proof -
  let ?s = "run_ops md5 vn ops"
  have "ring_inv md5 ?s" by (rule ring_inv_run_ops)
  then have srt: "sorted_wrt (<) (map fst (ring ?s))"
    by (simp add: ring_inv_def)
  have fresh: "nodes ?s (id_n node) = None"
    using assms(1) by (simp add: hasNode_def)
  have free: "\<forall>j\<in>{0..<virtual_nodes ?s}. hash md5 (getVirtualNodeKey (id_n node) j)
            \<notin> fst ` set (ring ?s)"
    using assms(2) by (simp add: virtual_nodes_run_ops)
  have "removeNode md5 (addNode md5 ?s node) (id_n node) = ?s"
    using srt fresh free by (rule addNode_then_removeNode)
  then show ?thesis by simp
qed

theorem add_remove_restores_witness:
  "removeNode md5_fixture
     (addNode md5_fixture (run_ops md5_fixture 3 [AddNode node_server1]) node_server2)
     (id_n node_server2) = run_ops md5_fixture 3 [AddNode node_server1] \<and>
   getNode md5_fixture
     (removeNode md5_fixture
        (addNode md5_fixture (run_ops md5_fixture 3 [AddNode node_server1]) node_server2)
        (id_n node_server2)) ''user:1'' = Inr node_server1"
proof -
  let ?s = "run_ops md5_fixture 3 [AddNode node_server1]"
  have h1: "\<not> hasNode ?s (id_n node_server2)"
    by (simp add: example_single hasNode_def node_server2_def)
  have p: "hash md5_fixture (getVirtualNodeKey (id_n node_server2) 0) = 0xc6933bd8"
    "hash md5_fixture (getVirtualNodeKey (id_n node_server2) 1) = 0xc8811bee"
    "hash md5_fixture (getVirtualNodeKey (id_n node_server2) 2) = 0xfb253f38"
    by (simp_all add: node_server2_def ring_eval digests_server2_def)
  have idx: "{0..<3::int} = {0, 1, 2}" by auto
  have h2: "\<forall>j\<in>{0..<3}. hash md5_fixture (getVirtualNodeKey (id_n node_server2) j)
            \<notin> fst ` set (ring ?s)"
    unfolding idx using p by (simp add: example_single)
  have "getNode md5_fixture ?s ''user:1'' = Inr node_server1"
    by (simp add: example_single getNode_def example_hashes)
  then show ?thesis
    using add_remove_restores [OF h1 h2, of "''user:1''"] by simp
qed

text \<open>
  Claim C4. In every ring state: \<^verbatim>\<open>removeNode(X)\<close> for an identifier that is not registered
  changes nothing; for a registered \<open>X\<close>, afterwards \<^verbatim>\<open>hasNode(X)\<close> is false, no ring entry
  stores \<open>X\<close>, and every key that \<^verbatim>\<open>getNode\<close> mapped to \<open>X\<close> now maps to another, registered
  node, or \<^verbatim>\<open>getNode\<close> fails with the no-nodes-available error when the ring has become empty.
\<close>

theorem removeNode_effect:
  "let s = run_ops md5 vn ops; s' = removeNode md5 s x in
     (\<not> hasNode s x \<longrightarrow> s' = s) \<and>
     (hasNode s x \<longrightarrow>
        \<not> hasNode s' x \<and>
        (\<forall>e\<in>set (ring s'). snd e \<noteq> x) \<and>
        (\<forall>key n. getNode md5 s key = Inr n \<and> id_n n = x \<longrightarrow>
           (if ring s' = [] then getNode md5 s' key = Inl NoNodesAvailable
            else \<exists>n'. getNode md5 s' key = Inr n' \<and> id_n n' \<noteq> x \<and>
                      nodes s' (id_n n') = Some n')))"
proof -
  let ?s = "run_ops md5 vn ops"
  let ?s' = "removeNode md5 ?s x"
  have unchanged: "?s' = ?s" if "\<not> hasNode ?s x"
    using that by (simp add: hasNode_def removeNode_def)
  have "?s' = run_ops md5 vn (ops @ [RemoveNode x])"
    by (simp add: run_ops_snoc)
  then have inv': "ring_inv md5 ?s'"
    by (simp add: ring_inv_run_ops)
  have gone: "nodes ?s' x = None" if "hasNode ?s x"
    using that by (auto simp: hasNode_def removeNode_def)
  have no_entry: "\<forall>e\<in>set (ring ?s'). snd e \<noteq> x" if "hasNode ?s x"
  proof
    fix e assume "e \<in> set (ring ?s')"
    then have "(fst e, snd e) \<in> set (ring ?s')" by simp
    from ring_inv_registered [OF inv' this] gone [OF that] show "snd e \<noteq> x" by auto
  qed
  have moved: "\<exists>n'. getNode md5 ?s' key = Inr n' \<and> id_n n' \<noteq> x \<and> nodes ?s' (id_n n') = Some n'"
    if "hasNode ?s x" "ring ?s' \<noteq> []" for key
    using getNode_nonempty [OF inv' that(2), of key] gone [OF that(1)] by auto
  show ?thesis
    using unchanged gone no_entry moved
    by (simp add: Let_def hasNode_def getNode_empty)
qed

theorem removeNode_effect_witness:
  "removeNode md5_fixture (run_ops md5_fixture 3 [AddNode node_server1, AddNode node_server2])
     ''server3'' = run_ops md5_fixture 3 [AddNode node_server1, AddNode node_server2] \<and>
   hasNode (run_ops md5_fixture 3 [AddNode node_server1, AddNode node_server2]) ''server2'' \<and>
   getNode md5_fixture (run_ops md5_fixture 3 [AddNode node_server1, AddNode node_server2])
     ''user:1'' = Inr node_server2 \<and>
   \<not> hasNode
       (removeNode md5_fixture
          (run_ops md5_fixture 3 [AddNode node_server1, AddNode node_server2]) ''server2'')
       ''server2'' \<and>
   getNode md5_fixture
     (removeNode md5_fixture
        (run_ops md5_fixture 3 [AddNode node_server1, AddNode node_server2]) ''server2'')
     ''user:1'' = Inr node_server1"
proof -
  let ?s = "run_ops md5_fixture 3 [AddNode node_server1, AddNode node_server2]"
  have a: "\<not> hasNode ?s ''server3''"
    by (simp add: example_state hasNode_def)
  have b: "hasNode ?s ''server2''"
    by (simp add: example_state hasNode_def)
  have c: "getNode md5_fixture ?s ''user:1'' = Inr node_server2"
    by (simp add: example_state getNode_def example_hashes)
  have d: "id_n node_server2 = ''server2''"
    by (simp add: node_server2_def)
  have e: "removeNode md5_fixture ?s ''server2'' =
      \<lparr>virtual_nodes = 3,
       ring = [(0x33330d14, ''server1''), (0x92c3e7ef, ''server1''), (0xb39032c7, ''server1'')],
       nodes = [''server1'' \<mapsto> node_server1]\<rparr>"
    unfolding example_state
    by (simp add: removeNode_def removeNode_loop_step removeNode_loop_stop getVirtualNodeKey_def
        to_string_def digits_small digits_large digit_char_def hash_def md5_fixture_def
        digests_server2_def fun_upd_twist)
  have f: "getNode md5_fixture (removeNode md5_fixture ?s ''server2'') ''user:1'' = Inr node_server1"
    unfolding e by (simp add: getNode_def example_hashes)
  from removeNode_effect [of md5_fixture 3 "[AddNode node_server1, AddNode node_server2]" "''server3''"] a
  have g: "removeNode md5_fixture ?s ''server3'' = ?s"
    by (simp add: Let_def)
  from removeNode_effect [of md5_fixture 3 "[AddNode node_server1, AddNode node_server2]" "''server2''"] b
  have h: "\<not> hasNode (removeNode md5_fixture ?s ''server2'') ''server2''"
    by (simp add: Let_def)
  show ?thesis using b c f g h by simp
qed

text \<open>
  Claim C5. When the ring names an owner for the key: if the owner is this node, \<^verbatim>\<open>get\<close>,
  \<^verbatim>\<open>set\<close> and \<^verbatim>\<open>del\<close> are \<^verbatim>\<open>getLocal\<close>, \<^verbatim>\<open>setLocal\<close> and \<^verbatim>\<open>delLocal\<close> on the local store and the
  client is not called; otherwise the operation is one call of the client's \<^verbatim>\<open>get\<close>, \<^verbatim>\<open>set\<close> or
  \<^verbatim>\<open>del\<close> with the owner as its target: the operation's result is that call's result and
  the client is in the state after that one call, nothing else having changed.
\<close>

theorem routing_by_ownership:
  assumes "getNode md5 (hash_ring s) key = Inr owner"
  shows "(id_n owner = node_id s \<longrightarrow>
            get md5 rpc s key val = Inr (getLocal s key val, s) \<and>
            set_value md5 rpc s key val = Inr (setLocal s key val) \<and>
            del md5 rpc s key = Inr (delLocal s key)) \<and>
         (id_n owner \<noteq> node_id s \<longrightarrow>
            get md5 rpc s key val =
              Inr (fst (client_get rpc (grpc_client s) owner key val),
                   s\<lparr>grpc_client := snd (client_get rpc (grpc_client s) owner key val)\<rparr>) \<and>
            set_value md5 rpc s key val =
              Inr (fst (client_set rpc (grpc_client s) owner key val),
                   s\<lparr>grpc_client := snd (client_set rpc (grpc_client s) owner key val)\<rparr>) \<and>
            del md5 rpc s key =
              Inr (fst (client_del rpc (grpc_client s) owner key),
                   s\<lparr>grpc_client := snd (client_del rpc (grpc_client s) owner key)\<rparr>))"
  using assms
  by (simp add: get_def set_value_def del_def isLocalKey_def split_beta)

theorem routing_by_ownership_witness:
  "get md5_fixture logging_client example_server ''user:1'' [] =
     Inr ((False, []), example_server) \<and>
   set_value md5_fixture logging_client example_server ''user:1'' ''Alice'' =
     Inr (True, example_server\<lparr>local_cache := [''user:1'' \<mapsto> ''Alice'']\<rparr>) \<and>
   del md5_fixture logging_client example_server ''user:1'' = Inr (False, example_server) \<and>
   get md5_fixture logging_client example_cluster ''server2#0'' [] =
     Inr ((False, []), example_cluster\<lparr>grpc_client := [CallGet node_server2 ''server2#0'']\<rparr>) \<and>
   set_value md5_fixture logging_client example_cluster ''server2#0'' ''Alice'' =
     Inr (False,
          example_cluster\<lparr>grpc_client := [CallSet node_server2 ''server2#0'' ''Alice'']\<rparr>) \<and>
   del md5_fixture logging_client example_cluster ''server2#0'' =
     Inr (False, example_cluster\<lparr>grpc_client := [CallDelete node_server2 ''server2#0'']\<rparr>)"
proof -
  have self: "id_n example_self = node_id example_server"
    by (simp add: example_self_def example_server_fields)
  have peer: "id_n node_server2 \<noteq> node_id example_cluster"
    by (simp add: node_server2_def example_cluster_fields)
  show ?thesis
    using
      routing_by_ownership [where rpc = logging_client and val = "[]",
        OF example_server_owner [of "''user:1''"]]
      routing_by_ownership [where rpc = logging_client and val = "''Alice''",
        OF example_server_owner [of "''user:1''"]]
      routing_by_ownership [where rpc = logging_client and val = "[]",
        OF example_cluster_owner]
      routing_by_ownership [where rpc = logging_client and val = "''Alice''",
        OF example_cluster_owner]
      self peer
    by (simp add: getLocal_def setLocal_def delLocal_def example_server_fields
        example_cluster_fields logging_client_def)
qed

text \<open>
  Claim C6. When the ring is empty, \<^verbatim>\<open>getNode\<close> signals the no-nodes-available error,
  \<^verbatim>\<open>isLocalKey\<close> returns true, and \<^verbatim>\<open>get\<close>, \<^verbatim>\<open>set\<close> and \<^verbatim>\<open>del\<close> work on the local store without
  passing the error on.
\<close>

theorem empty_ring_fails_open:
  assumes "ring (hash_ring s) = []"
  shows "getNode md5 (hash_ring s) key = Inl NoNodesAvailable \<and>
         isLocalKey md5 s key \<and>
         get md5 rpc s key val = Inr (getLocal s key val, s) \<and>
         set_value md5 rpc s key val = Inr (setLocal s key val) \<and>
         del md5 rpc s key = Inr (delLocal s key)"
  using assms
  by (simp add: get_def set_value_def del_def isLocalKey_def getNode_empty)

theorem empty_ring_fails_open_witness:
  "isLocalKey md5_fixture (CacheServer_removeNode md5_fixture example_server ''server1'')
     ''user:1'' \<and>
   get md5_fixture logging_client
     (CacheServer_removeNode md5_fixture example_server ''server1'') ''user:1'' [] =
     Inr ((False, []), CacheServer_removeNode md5_fixture example_server ''server1'')"
proof -
  let ?s = "CacheServer_removeNode md5_fixture example_server ''server1''"
  have e: "ring (hash_ring ?s) = []"
    by (simp add: example_emptied ConsistentHash_new_def)
  have "local_cache ?s = Map.empty"
    by (simp add: CacheServer_removeNode_def example_server_fields)
  then show ?thesis
    using empty_ring_fails_open [OF e, of md5_fixture "''user:1''" logging_client "[]"]
    by (simp add: getLocal_def)
qed

text \<open>
  Claim C7. On the node that the ring names as owner of key \<open>k\<close>, \<^verbatim>\<open>del(k)\<close> returns true
  exactly when \<open>k\<close> is in the local store, and a second \<^verbatim>\<open>del(k)\<close> right after it returns
  false.
\<close>

theorem del_true_iff_present:
  assumes "getNode md5 (hash_ring s) k = Inr owner" and "id_n owner = node_id s"
  shows "\<exists>s'. del md5 rpc s k = Inr (k \<in> dom (local_cache s), s') \<and>
              del md5 rpc s' k = Inr (False, s')"
  using assms
  by (auto simp: del_def isLocalKey_def delLocal_def split: option.splits)

theorem del_true_iff_present_witness:
  "\<exists>s'. del md5_fixture logging_client
            (snd (setLocal example_server ''user:1'' ''Alice'')) ''user:1'' = Inr (True, s') \<and>
        del md5_fixture logging_client s' ''user:1'' = Inr (False, s')"
proof -
  let ?s = "snd (setLocal example_server ''user:1'' ''Alice'')"
  have ring: "hash_ring ?s = hash_ring example_server"
    and me: "node_id ?s = node_id example_server"
    and present: "''user:1'' \<in> dom (local_cache ?s)"
    by (simp_all add: setLocal_def)
  have owner: "getNode md5_fixture (hash_ring ?s) ''user:1'' = Inr example_self"
    by (simp add: ring example_server_owner)
  have self: "id_n example_self = node_id ?s"
    by (simp add: me example_self_def example_server_fields)
  show ?thesis
    using del_true_iff_present [where rpc = logging_client, OF owner self] present by simp
qed

text \<open>
  Claim C8. On the node that the ring names as owner of key \<open>k\<close>: \<^verbatim>\<open>set(k, v)\<close> succeeds and
  a \<^verbatim>\<open>get(k)\<close> after it finds \<open>v\<close>; a \<^verbatim>\<open>get(k)\<close> after \<^verbatim>\<open>del(k)\<close> finds nothing (and leaves the
  caller's \<^verbatim>\<open>value\<close> as it was).
\<close>

theorem set_get_and_del_get:
  assumes "getNode md5 (hash_ring s) k = Inr owner" and "id_n owner = node_id s"
  shows "(\<exists>s1. set_value md5 rpc s k v = Inr (True, s1) \<and>
               get md5 rpc s1 k val = Inr ((True, v), s1)) \<and>
         (\<exists>b s2. del md5 rpc s k = Inr (b, s2) \<and>
               get md5 rpc s2 k val = Inr ((False, val), s2))"
proof -
  let ?s1 = "s\<lparr>local_cache := (local_cache s)(k \<mapsto> v)\<rparr>"
  let ?s2 = "snd (delLocal s k)"
  have loc: "isLocalKey md5 s k"
    using assms by (simp add: isLocalKey_def)
  have loc1: "isLocalKey md5 ?s1 k"
    using assms by (simp add: isLocalKey_def)
  have same: "hash_ring ?s2 = hash_ring s" "node_id ?s2 = node_id s"
    and gone: "local_cache ?s2 k = None"
    by (simp_all add: delLocal_def split: option.splits)
  have loc2: "isLocalKey md5 ?s2 k"
    using assms by (simp add: isLocalKey_def same)
  have "set_value md5 rpc s k v = Inr (True, ?s1)"
    using loc by (simp add: set_value_def setLocal_def)
  moreover have "get md5 rpc ?s1 k val = Inr ((True, v), ?s1)"
    using loc1 by (simp add: get_def getLocal_def)
  moreover have "del md5 rpc s k = Inr (fst (delLocal s k), ?s2)"
    using loc by (simp add: del_def)
  moreover have "get md5 rpc ?s2 k val = Inr ((False, val), ?s2)"
    using loc2 gone by (simp add: get_def getLocal_def)
  ultimately show ?thesis by blast
qed

theorem set_get_and_del_get_witness:
  "(\<exists>s1. set_value md5_fixture logging_client example_server ''user:1'' ''Alice'' =
            Inr (True, s1) \<and>
         get md5_fixture logging_client s1 ''user:1'' [] = Inr ((True, ''Alice''), s1)) \<and>
   (\<exists>b s2. del md5_fixture logging_client
              (snd (setLocal example_server ''user:1'' ''Alice'')) ''user:1'' = Inr (b, s2) \<and>
         get md5_fixture logging_client s2 ''user:1'' [] = Inr ((False, []), s2))"
proof -
  let ?s = "snd (setLocal example_server ''user:1'' ''Alice'')"
  have self0: "id_n example_self = node_id example_server"
    by (simp add: example_self_def example_server_fields)
  have ring: "hash_ring ?s = hash_ring example_server"
    and me: "node_id ?s = node_id example_server"
    by (simp_all add: setLocal_def)
  have owner: "getNode md5_fixture (hash_ring ?s) ''user:1'' = Inr example_self"
    by (simp add: ring example_server_owner)
  have self: "id_n example_self = node_id ?s"
    by (simp add: me self0)
  show ?thesis
    using
      set_get_and_del_get [where rpc = logging_client and v = "''Alice''" and val = "[]",
        OF example_server_owner [of "''user:1''"] self0]
      set_get_and_del_get [where rpc = logging_client and v = "''Alice''" and val = "[]",
        OF owner self]
    by blast
qed

text \<open>
  Claim C9. The handlers \<^verbatim>\<open>Get\<close>, \<^verbatim>\<open>Set\<close> and \<^verbatim>\<open>Delete\<close> read and write the local store only:
  their responses are the same whatever the ring and the client are, and they leave the
  ring and the client as they were (\<^verbatim>\<open>Get\<close> leaves the whole server as it was). \<^verbatim>\<open>Health\<close>
  answers healthy with this node's identifier, in every state, and changes nothing.
\<close>

theorem handlers_local_only:
  "fst (Get (s\<lparr>hash_ring := r, grpc_client := c\<rparr>) key) = fst (Get s key) \<and>
   fst (Get s key) = (case local_cache s key of Some v \<Rightarrow> (True, v) | None \<Rightarrow> (False, [])) \<and>
   snd (Get s key) = s \<and>
   fst (Set (s\<lparr>hash_ring := r, grpc_client := c\<rparr>) key val) = fst (Set s key val) \<and>
   Set s key val = (True, s\<lparr>local_cache := (local_cache s)(key \<mapsto> val)\<rparr>) \<and>
   fst (Delete (s\<lparr>hash_ring := r, grpc_client := c\<rparr>) key) = fst (Delete s key) \<and>
   Delete s key =
     (key \<in> dom (local_cache s), s\<lparr>local_cache := (local_cache s)(key := None)\<rparr>) \<and>
   Health s = ((True, node_id s), s)"
  by (auto simp: Get_def Set_def Delete_def Health_def getLocal_def setLocal_def delLocal_def
      fun_upd_idem split: option.splits)

text \<open>
  Claim C10. In every ring state reachable from the empty ring by \<^verbatim>\<open>addNode\<close> and
  \<^verbatim>\<open>removeNode\<close>, every ring entry stores a registered identifier; on a non-empty ring
  \<^verbatim>\<open>getNode\<close> returns a registered node, on the empty ring it fails with the
  no-nodes-available error, and the registry lookup \<^verbatim>\<open>nodes_.at\<close> never throws.
\<close>

theorem ring_entries_registered:
  "let s = run_ops md5 vn ops in
     (\<forall>e\<in>set (ring s). hasNode s (snd e)) \<and>
     (ring s \<noteq> [] \<longrightarrow> (\<exists>n. getNode md5 s key = Inr n \<and> hasNode s (id_n n))) \<and>
     (ring s = [] \<longrightarrow> getNode md5 s key = Inl NoNodesAvailable) \<and>
     getNode md5 s key \<noteq> Inl OutOfRange"
proof -
  let ?s = "run_ops md5 vn ops"
  have inv: "ring_inv md5 ?s" by (rule ring_inv_run_ops)
  have dist: "distinct (map fst (ring ?s))"
    using inv by (simp add: ring_inv_def sorted_keys_distinct)
  have a: "\<forall>e\<in>set (ring ?s). hasNode ?s (snd e)"
  proof
    fix e assume "e \<in> set (ring ?s)"
    then have "(fst e, snd e) \<in> set (ring ?s)" by simp
    from ring_inv_registered [OF inv this] show "hasNode ?s (snd e)"
      by (auto simp: hasNode_def)
  qed
  have b: "\<exists>n. getNode md5 ?s key = Inr n \<and> hasNode ?s (id_n n)" if "ring ?s \<noteq> []"
    using getNode_nonempty [OF inv that, of key] by (auto simp: hasNode_def)
  have c: "getNode md5 ?s key = Inl NoNodesAvailable" if "ring ?s = []"
    using that by (rule getNode_empty)
  have d: "getNode md5 ?s key \<noteq> Inl OutOfRange"
    using b c by (cases "ring ?s = []") auto
  show ?thesis
    using a b c d by (simp add: Let_def)
qed

theorem ring_entries_registered_witness:
  "ring (run_ops md5_fixture 3 [AddNode node_server1, AddNode node_server2]) \<noteq> [] \<and>
   hasNode (run_ops md5_fixture 3 [AddNode node_server1, AddNode node_server2]) ''server2'' \<and>
   (\<exists>n. getNode md5_fixture (run_ops md5_fixture 3 [AddNode node_server1, AddNode node_server2])
          ''user:2'' = Inr n) \<and>
   ring (run_ops md5_fixture 3 [AddNode node_server1, RemoveNode ''server1'']) = [] \<and>
   getNode md5_fixture (run_ops md5_fixture 3 [AddNode node_server1, RemoveNode ''server1''])
     ''user:2'' = Inl NoNodesAvailable"
proof -
  have ne: "ring (run_ops md5_fixture 3 [AddNode node_server1, AddNode node_server2]) \<noteq> []"
    by (simp add: example_state)
  have e: "ring (run_ops md5_fixture 3 [AddNode node_server1, RemoveNode ''server1'']) = []"
    by (simp add: ring_eval digests_server1_def node_server1_def)
  show ?thesis
    using ne e
      ring_entries_registered [of md5_fixture 3 "[AddNode node_server1, AddNode node_server2]"
        "''user:2''"]
      ring_entries_registered [of md5_fixture 3 "[AddNode node_server1, RemoveNode ''server1'']"
        "''user:2''"]
    by (auto simp: Let_def example_state)
qed

end
